theory Spec2Isabelle
  imports Main
begin

section \<open>Data model\<close>

text \<open>
  Port numbers, positions in a pool and levels are natural numbers, as the 0-based indices
  of the routers are. The two physical routers are told apart by the strings 'A' and 'B'
  of the source.
\<close>

datatype router = A | B

datatype status = Free | InUse

datatype direction = AToB | BToA

text \<open>One configured cable of \<^verbatim>\<open>config.aToB\<close>: output of router A wired to an input of router B.\<close>

record cfgAToB =
  routerAOutput :: nat
  routerBInput :: nat

text \<open>One configured cable of \<^verbatim>\<open>config.bToA\<close>.\<close>

record cfgBToA =
  routerBOutput :: nat
  routerAInput :: nat

record tieLineConfig =
  cfg_aToB :: "cfgAToB list"
  cfg_bToA :: "cfgBToA list"

text \<open>
  A runtime record of \<^verbatim>\<open>state.aToB\<close> or \<^verbatim>\<open>state.bToA\<close>. The two port fields that
  \<^verbatim>\<open>initializeState\<close> copies from the configuration entry are kept together in \<open>ports\<close>
  (a \<open>cfgAToB\<close> in the A to B pool, a \<open>cfgBToA\<close> in the other); \<open>sourceInput\<close> is
  \<open>None\<close> for the source's \<^verbatim>\<open>null\<close>.
\<close>

record 'c tieLine =
  index :: nat
  ports :: 'c
  status :: status
  sourceInput :: "nat option"
  destinations :: "nat list"

record tieLineState =
  aToB :: "cfgAToB tieLine list"
  bToA :: "cfgBToA tieLine list"

record engine =
  config :: tieLineConfig
  state :: tieLineState

section \<open>Router state and controllers\<close>

text \<open>
  A routing table is the object \<^verbatim>\<open>routing\<close> of a router state, whose keys are output
  numbers: position \<open>o\<close> of the list holds \<^verbatim>\<open>routing[o]\<close>, and \<open>None\<close> where the key is
  absent (\<^verbatim>\<open>undefined\<close>), as it is past the end of the list.
\<close>

type_synonym routing = "nat option list"

definition routingAt :: "routing \<Rightarrow> nat \<Rightarrow> nat option" where
  "routingAt r output = (if output < length r then r ! output else None)"

text \<open>\<^verbatim>\<open>Object.entries(routing)\<close>: the present keys in ascending order, each with its value.\<close>

definition entries :: "routing \<Rightarrow> (nat \<times> nat) list" where
  "entries r =
     concat (map (\<lambda>output. case r ! output of None \<Rightarrow> [] | Some input \<Rightarrow> [(output, input)])
                 [0..<length r])"

record routerState =
  inputs :: nat
  outputs :: nat
  routing :: routing

text \<open>
  What the engine sees of its two controllers during one operation:
  \<open>connectedA\<close> is \<^verbatim>\<open>this.controllerA?.isConnected()\<close> (false for a missing controller),
  \<open>routingA\<close> is \<^verbatim>\<open>this.controllerA.getState().routing\<close>, and \<open>setRouteA output input level\<close>
  tells whether \<^verbatim>\<open>controllerA.setRoute(output, input, level)\<close> resolves (\<open>True\<close>) or
  throws (\<open>False\<close>); likewise for router B. The controller classes are not part of the
  sources at hand and belong to the environment, so every operation is given its own
  \<open>env\<close>, and nothing is assumed of it.
\<close>

record env =
  connectedA :: bool
  connectedB :: bool
  routingA :: routing
  routingB :: routing
  setRouteA :: "nat \<Rightarrow> nat \<Rightarrow> nat \<Rightarrow> bool"
  setRouteB :: "nat \<Rightarrow> nat \<Rightarrow> nat \<Rightarrow> bool"

text \<open>A \<^verbatim>\<open>setRoute(output, input, level)\<close> issued on a router, successful or not.\<close>

type_synonym call = "router \<times> nat \<times> nat \<times> nat"

section \<open>Virtual router (virtual-router.js)\<close>

record virtualRouter =
  routerA :: routerState
  routerB :: routerState
  tieLineConfig :: tieLineConfig

definition excludedAOutputs :: "virtualRouter \<Rightarrow> nat set" where
  "excludedAOutputs vr = set (map routerAOutput (cfg_aToB (tieLineConfig vr)))"

definition excludedBOutputs :: "virtualRouter \<Rightarrow> nat set" where
  "excludedBOutputs vr = set (map routerBOutput (cfg_bToA (tieLineConfig vr)))"

definition excludedAInputs :: "virtualRouter \<Rightarrow> nat set" where
  "excludedAInputs vr = set (map routerAInput (cfg_bToA (tieLineConfig vr)))"

definition excludedBInputs :: "virtualRouter \<Rightarrow> nat set" where
  "excludedBInputs vr = set (map routerBInput (cfg_aToB (tieLineConfig vr)))"

definition visibleAInputs :: "virtualRouter \<Rightarrow> nat list" where
  "visibleAInputs vr = filter (\<lambda>i. i \<notin> excludedAInputs vr) [0..<inputs (routerA vr)]"

definition visibleBInputs :: "virtualRouter \<Rightarrow> nat list" where
  "visibleBInputs vr = filter (\<lambda>i. i \<notin> excludedBInputs vr) [0..<inputs (routerB vr)]"

definition visibleAOutputs :: "virtualRouter \<Rightarrow> nat list" where
  "visibleAOutputs vr = filter (\<lambda>i. i \<notin> excludedAOutputs vr) [0..<outputs (routerA vr)]"

definition visibleBOutputs :: "virtualRouter \<Rightarrow> nat list" where
  "visibleBOutputs vr = filter (\<lambda>i. i \<notin> excludedBOutputs vr) [0..<outputs (routerB vr)]"

definition totalInputs :: "virtualRouter \<Rightarrow> nat" where
  "totalInputs vr = length (visibleAInputs vr) + length (visibleBInputs vr)"

definition totalOutputs :: "virtualRouter \<Rightarrow> nat" where
  "totalOutputs vr = length (visibleAOutputs vr) + length (visibleBOutputs vr)"

text \<open>
  \<^verbatim>\<open>xs[i]\<close> for an integer \<open>i\<close>: the element at that position, or \<^verbatim>\<open>undefined\<close> (\<open>None\<close>)
  when \<open>i\<close> is negative or not below the length.
\<close>

definition at :: "'a list \<Rightarrow> int \<Rightarrow> 'a option" where
  "at xs i = (if 0 \<le> i \<and> i < int (length xs) then Some (xs ! nat i) else None)"

text \<open>
  The object \<^verbatim>\<open>{ router, physicalIndex }\<close>; \<^verbatim>\<open>null\<close> is \<open>None\<close>. The type of
  \<open>physicalIndex\<close> is \<open>nat option\<close> where the field may be \<^verbatim>\<open>undefined\<close>, and \<open>nat\<close>
  where it is known to be a port.
\<close>

record 'i resolved =
  router :: router
  physicalIndex :: 'i

text \<open>
  \<^verbatim>\<open>resolveInput\<close> and \<^verbatim>\<open>resolveOutput\<close> on any integer. A negative index passes the first
  comparison and reads \<^verbatim>\<open>aInputs[virtualIndex]\<close> out of range.
\<close>

definition resolveInput :: "virtualRouter \<Rightarrow> int \<Rightarrow> nat option resolved option" where
  "resolveInput vr virtualIndex =
     (let aInputs = visibleAInputs vr in
      if virtualIndex < int (length aInputs)
      then Some \<lparr>router = A, physicalIndex = at aInputs virtualIndex\<rparr>
      else
        let bIdx = virtualIndex - int (length aInputs);
            bInputs = visibleBInputs vr
        in if bIdx < int (length bInputs)
           then Some \<lparr>router = B, physicalIndex = at bInputs bIdx\<rparr>
           else None)"

definition resolveOutput :: "virtualRouter \<Rightarrow> int \<Rightarrow> nat option resolved option" where
  "resolveOutput vr virtualIndex =
     (let aOutputs = visibleAOutputs vr in
      if virtualIndex < int (length aOutputs)
      then Some \<lparr>router = A, physicalIndex = at aOutputs virtualIndex\<rparr>
      else
        let bIdx = virtualIndex - int (length aOutputs);
            bOutputs = visibleBOutputs vr
        in if bIdx < int (length bOutputs)
           then Some \<lparr>router = B, physicalIndex = at bOutputs bIdx\<rparr>
           else None)"

text \<open>
  The same two functions on a natural index, where every read is in range and
  \<open>physicalIndex\<close> is a port (lemma \<open>resolve_int\<close> below). The engine is modelled on
  natural indices and uses these.
\<close>

definition resolveInputAt :: "virtualRouter \<Rightarrow> nat \<Rightarrow> nat resolved option" where
  "resolveInputAt vr virtualIndex =
     (let aInputs = visibleAInputs vr in
      if virtualIndex < length aInputs
      then Some \<lparr>router = A, physicalIndex = aInputs ! virtualIndex\<rparr>
      else
        let bIdx = virtualIndex - length aInputs;
            bInputs = visibleBInputs vr
        in if bIdx < length bInputs
           then Some \<lparr>router = B, physicalIndex = bInputs ! bIdx\<rparr>
           else None)"

definition resolveOutputAt :: "virtualRouter \<Rightarrow> nat \<Rightarrow> nat resolved option" where
  "resolveOutputAt vr virtualIndex =
     (let aOutputs = visibleAOutputs vr in
      if virtualIndex < length aOutputs
      then Some \<lparr>router = A, physicalIndex = aOutputs ! virtualIndex\<rparr>
      else
        let bIdx = virtualIndex - length aOutputs;
            bOutputs = visibleBOutputs vr
        in if bIdx < length bOutputs
           then Some \<lparr>router = B, physicalIndex = bOutputs ! bIdx\<rparr>
           else None)"

text \<open>\<^verbatim>\<open>Array.prototype.indexOf\<close>: the first position of the element, or -1.\<close>

fun indexOf :: "'a list \<Rightarrow> 'a \<Rightarrow> int" where
  "indexOf [] x = - 1"
| "indexOf (y # ys) x =
     (if y = x then 0 else (let r = indexOf ys x in if r < 0 then - 1 else r + 1))"

definition physicalInputToVirtual :: "virtualRouter \<Rightarrow> router \<Rightarrow> nat \<Rightarrow> int" where
  "physicalInputToVirtual vr r physIndex =
     (if r = A then
        (let idx = indexOf (visibleAInputs vr) physIndex in if idx \<ge> 0 then idx else - 1)
      else
        (let idx = indexOf (visibleBInputs vr) physIndex
         in if idx \<ge> 0 then int (length (visibleAInputs vr)) + idx else - 1))"

definition physicalOutputToVirtual :: "virtualRouter \<Rightarrow> router \<Rightarrow> nat \<Rightarrow> int" where
  "physicalOutputToVirtual vr r physIndex =
     (if r = A then
        (let idx = indexOf (visibleAOutputs vr) physIndex in if idx \<ge> 0 then idx else - 1)
      else
        (let idx = indexOf (visibleBOutputs vr) physIndex
         in if idx \<ge> 0 then int (length (visibleAOutputs vr)) + idx else - 1))"

section \<open>Tie-line engine (tie-line-engine.js)\<close>

text \<open>
  In this section every operation is one step: it takes the engine and returns the engine it
  leaves behind, together with its result object and the \<^verbatim>\<open>setRoute\<close> calls it issued, in
  order. That is what an operation does when it has returned before anything else touches
  the engine. The virtual indices given to \<^verbatim>\<open>executeVirtualRoute\<close> are natural numbers here,
  so that every physical index is a port number. The section after this one takes
  \<^verbatim>\<open>executeVirtualRoute\<close> apart at its \<^verbatim>\<open>await\<close>s, on any integer index. The
  \<^verbatim>\<open>state-changed\<close> events are not modelled.
\<close>

datatype error =
    InvalidVirtualIndex
  | UnknownRoutingScenario
  | RouterNotConnected router
  | RouteFailed router
  | AllTieLinesInUse direction nat

text \<open>
  The result objects of \<^verbatim>\<open>executeVirtualRoute\<close>:
  \<^verbatim>\<open>{success: true, direct: true}\<close>,
  \<^verbatim>\<open>{success: true, tieLineIndex, reused}\<close>,
  \<^verbatim>\<open>{success: false, error}\<close> and
  \<^verbatim>\<open>{success: false, error, partialFailure: true}\<close>.
\<close>

datatype routeResult =
    Direct
  | ViaTieLine nat bool
  | Failure error
  | PartialFailure error



fun partialFailure :: "routeResult \<Rightarrow> bool" where
  "partialFailure (PartialFailure e) = True"
| "partialFailure res = False"

definition initializeState :: "tieLineConfig \<Rightarrow> tieLineState" where
  "initializeState cfg =
     \<lparr>aToB = map (\<lambda>(idx, tl). \<lparr>index = idx, ports = tl, status = Free,
                                  sourceInput = None, destinations = []\<rparr>)
                  (enumerate 0 (cfg_aToB cfg)),
      bToA = map (\<lambda>(idx, tl). \<lparr>index = idx, ports = tl, status = Free,
                                  sourceInput = None, destinations = []\<rparr>)
                  (enumerate 0 (cfg_bToA cfg))\<rparr>"

text \<open>The constructor; a missing configuration is replaced by the empty one.\<close>

definition newEngine :: "tieLineConfig option \<Rightarrow> engine" where
  "newEngine tieLineCfg =
     (let cfg = (case tieLineCfg of None \<Rightarrow> \<lparr>cfg_aToB = [], cfg_bToA = []\<rparr> | Some c \<Rightarrow> c)
      in \<lparr>config = cfg, state = initializeState cfg\<rparr>)"

text \<open>
  \<^verbatim>\<open>Array.prototype.find\<close> returns a reference to the first matching record, which the
  caller then mutates in place; \<open>findPos\<close> gives the position of that record.
\<close>

fun findPos :: "('a \<Rightarrow> bool) \<Rightarrow> 'a list \<Rightarrow> nat option" where
  "findPos P [] = None"
| "findPos P (x # xs) =
     (if P x then Some 0 else (case findPos P xs of None \<Rightarrow> None | Some i \<Rightarrow> Some (Suc i)))"

text \<open>\<^verbatim>\<open>_releaseTieLineDestination\<close> on the pool \<^verbatim>\<open>this.state[direction]\<close>.\<close>

definition releasePool :: "'c tieLine list \<Rightarrow> nat \<Rightarrow> nat \<Rightarrow> 'c tieLine list" where
  "releasePool pool tieLineIndex removedDest =
     (if tieLineIndex < length pool then
        (let tieLine = pool ! tieLineIndex in
         if status tieLine \<noteq> InUse then pool
         else
           let ds = filter (\<lambda>d. d \<noteq> removedDest) (destinations tieLine) in
           if length ds = 0
           then pool[tieLineIndex := tieLine\<lparr>destinations := ds, status := Free, sourceInput := None\<rparr>]
           else pool[tieLineIndex := tieLine\<lparr>destinations := ds\<rparr>])
      else pool)"

definition releaseTieLineDestination :: "engine \<Rightarrow> direction \<Rightarrow> nat \<Rightarrow> nat \<Rightarrow> engine" where
  "releaseTieLineDestination eng dir tieLineIndex removedDest =
     (case dir of
        AToB \<Rightarrow> eng\<lparr>state := (state eng)\<lparr>aToB := releasePool (aToB (state eng)) tieLineIndex removedDest\<rparr>\<rparr>
      | BToA \<Rightarrow> eng\<lparr>state := (state eng)\<lparr>bToA := releasePool (bToA (state eng)) tieLineIndex removedDest\<rparr>\<rparr>)"

text \<open>The search shared by \<^verbatim>\<open>_handleOutputReassignment\<close> and \<^verbatim>\<open>_cleanupOutputTieLine\<close>.\<close>

definition carries :: "nat \<Rightarrow> 'c tieLine \<Rightarrow> bool" where
  "carries destOutput = (\<lambda>tl. status tl = InUse \<and> destOutput \<in> set (destinations tl))"

definition handleOutputReassignment :: "engine \<Rightarrow> direction \<Rightarrow> nat \<Rightarrow> engine" where
  "handleOutputReassignment eng dir destOutput =
     (case dir of
        AToB \<Rightarrow> (case find (carries destOutput) (aToB (state eng)) of
                   None \<Rightarrow> eng
                 | Some oldTieLine \<Rightarrow> releaseTieLineDestination eng AToB (index oldTieLine) destOutput)
      | BToA \<Rightarrow> (case find (carries destOutput) (bToA (state eng)) of
                   None \<Rightarrow> eng
                 | Some oldTieLine \<Rightarrow> releaseTieLineDestination eng BToA (index oldTieLine) destOutput))"

definition cleanupOutputTieLine :: "engine \<Rightarrow> router \<Rightarrow> router \<Rightarrow> nat \<Rightarrow> engine" where
  "cleanupOutputTieLine eng sourceRouter destRouter destPhysicalOutput =
     (if destRouter = A then
        (case find (carries destPhysicalOutput) (bToA (state eng)) of
           None \<Rightarrow> eng
         | Some tieLine \<Rightarrow> releaseTieLineDestination eng BToA (index tieLine) destPhysicalOutput)
      else
        (case find (carries destPhysicalOutput) (aToB (state eng)) of
           None \<Rightarrow> eng
         | Some tieLine \<Rightarrow> releaseTieLineDestination eng AToB (index tieLine) destPhysicalOutput))"

definition routeDirect ::
  "env \<Rightarrow> engine \<Rightarrow> router \<Rightarrow> nat \<Rightarrow> nat \<Rightarrow> nat \<Rightarrow> routeResult \<times> engine \<times> call list" where
  "routeDirect e eng r sourceInp destOutput level =
     (if \<not> (if r = A then connectedA e else connectedB e)
      then (Failure (RouterNotConnected r), eng, [])
      else if (if r = A then setRouteA e else setRouteB e) destOutput sourceInp level
      then (Direct, eng, [(r, destOutput, sourceInp, level)])
      else (Failure (RouteFailed r), eng, [(r, destOutput, sourceInp, level)]))"

text \<open>The in-place updates of the record that \<^verbatim>\<open>find\<close> returned.\<close>

definition addDestination :: "'c tieLine \<Rightarrow> nat \<Rightarrow> 'c tieLine" where
  "addDestination tieLine destOutput =
     (if destOutput \<in> set (destinations tieLine) then tieLine
      else tieLine\<lparr>destinations := destinations tieLine @ [destOutput]\<rparr>)"

definition commit :: "'c tieLine \<Rightarrow> nat \<Rightarrow> nat \<Rightarrow> 'c tieLine" where
  "commit tieLine sourceInp destOutput =
     tieLine\<lparr>status := InUse, sourceInput := Some sourceInp, destinations := [destOutput]\<rparr>"

definition routeAToB ::
  "env \<Rightarrow> engine \<Rightarrow> nat \<Rightarrow> nat \<Rightarrow> nat \<Rightarrow> routeResult \<times> engine \<times> call list" where
  "routeAToB e eng sourceInp destOutput level =
     (let pool = aToB (state eng) in
      if \<not> connectedA e then (Failure (RouterNotConnected A), eng, [])
      else if \<not> connectedB e then (Failure (RouterNotConnected B), eng, [])
      else
        (case findPos (\<lambda>tl. status tl = InUse \<and> sourceInput tl = Some sourceInp) pool of
           Some i \<Rightarrow>
             (let tieLine = pool ! i;
                  callB = (B, destOutput, routerBInput (ports tieLine), level)
              in if setRouteB e destOutput (routerBInput (ports tieLine)) level
                 then (ViaTieLine (index tieLine) True,
                       eng\<lparr>state := (state eng)\<lparr>aToB := pool[i := addDestination tieLine destOutput]\<rparr>\<rparr>,
                       [callB])
                 else (Failure (RouteFailed B), eng, [callB]))
         | None \<Rightarrow>
             (case findPos (\<lambda>tl. status tl = Free) pool of
                None \<Rightarrow> (Failure (AllTieLinesInUse AToB (length pool)), eng, [])
              | Some i \<Rightarrow>
                  (let tieLine = pool ! i;
                       callA = (A, routerAOutput (ports tieLine), sourceInp, level);
                       callB = (B, destOutput, routerBInput (ports tieLine), level)
                   in if \<not> setRouteA e (routerAOutput (ports tieLine)) sourceInp level
                      then (Failure (RouteFailed A), eng, [callA])
                      else if \<not> setRouteB e destOutput (routerBInput (ports tieLine)) level
                      then (PartialFailure (RouteFailed B), eng, [callA, callB])
                      else (ViaTieLine (index tieLine) False,
                            eng\<lparr>state := (state eng)\<lparr>aToB := pool[i := commit tieLine sourceInp destOutput]\<rparr>\<rparr>,
                            [callA, callB])))))"

definition routeBToA ::
  "env \<Rightarrow> engine \<Rightarrow> nat \<Rightarrow> nat \<Rightarrow> nat \<Rightarrow> routeResult \<times> engine \<times> call list" where
  "routeBToA e eng sourceInp destOutput level =
     (let pool = bToA (state eng) in
      if \<not> connectedB e then (Failure (RouterNotConnected B), eng, [])
      else if \<not> connectedA e then (Failure (RouterNotConnected A), eng, [])
      else
        (case findPos (\<lambda>tl. status tl = InUse \<and> sourceInput tl = Some sourceInp) pool of
           Some i \<Rightarrow>
             (let tieLine = pool ! i;
                  callA = (A, destOutput, routerAInput (ports tieLine), level)
              in if setRouteA e destOutput (routerAInput (ports tieLine)) level
                 then (ViaTieLine (index tieLine) True,
                       eng\<lparr>state := (state eng)\<lparr>bToA := pool[i := addDestination tieLine destOutput]\<rparr>\<rparr>,
                       [callA])
                 else (Failure (RouteFailed A), eng, [callA]))
         | None \<Rightarrow>
             (case findPos (\<lambda>tl. status tl = Free) pool of
                None \<Rightarrow> (Failure (AllTieLinesInUse BToA (length pool)), eng, [])
              | Some i \<Rightarrow>
                  (let tieLine = pool ! i;
                       callB = (B, routerBOutput (ports tieLine), sourceInp, level);
                       callA = (A, destOutput, routerAInput (ports tieLine), level)
                   in if \<not> setRouteB e (routerBOutput (ports tieLine)) sourceInp level
                      then (Failure (RouteFailed B), eng, [callB])
                      else if \<not> setRouteA e destOutput (routerAInput (ports tieLine)) level
                      then (PartialFailure (RouteFailed A), eng, [callB, callA])
                      else (ViaTieLine (index tieLine) False,
                            eng\<lparr>state := (state eng)\<lparr>bToA := pool[i := commit tieLine sourceInp destOutput]\<rparr>\<rparr>,
                            [callB, callA])))))"

definition executeVirtualRoute ::
  "env \<Rightarrow> engine \<Rightarrow> nat \<Rightarrow> nat \<Rightarrow> virtualRouter \<Rightarrow> nat \<Rightarrow> routeResult \<times> engine \<times> call list" where
  "executeVirtualRoute e eng virtualOutput virtualInput vr level =
     (case (resolveInputAt vr virtualInput, resolveOutputAt vr virtualOutput) of
        (Some source, Some dest) \<Rightarrow>
          if router source = router dest then
            routeDirect e (cleanupOutputTieLine eng (router source) (router dest) (physicalIndex dest))
              (router source) (physicalIndex source) (physicalIndex dest) level
          else if router source = A \<and> router dest = B then
            routeAToB e (handleOutputReassignment eng AToB (physicalIndex dest))
              (physicalIndex source) (physicalIndex dest) level
          else if router source = B \<and> router dest = A then
            routeBToA e (handleOutputReassignment eng BToA (physicalIndex dest))
              (physicalIndex source) (physicalIndex dest) level
          else (Failure UnknownRoutingScenario, eng, [])
      | _ \<Rightarrow> (Failure InvalidVirtualIndex, eng, []))"

definition releaseAllTieLines :: "engine \<Rightarrow> engine" where
  "releaseAllTieLines eng =
     eng\<lparr>state :=
       \<lparr>aToB = map (\<lambda>tieLine. tieLine\<lparr>status := Free, sourceInput := None, destinations := []\<rparr>)
                    (aToB (state eng)),
        bToA = map (\<lambda>tieLine. tieLine\<lparr>status := Free, sourceInput := None, destinations := []\<rparr>)
                    (bToA (state eng))\<rparr>\<rparr>"

text \<open>
  The inner loop of \<^verbatim>\<open>reconstructStateFromRouting\<close> over the entries of the far router's
  routing table: the outputs routed to the tie-line's input that are not tie-line outputs of
  that router and are not the 1:1 default (\<^verbatim>\<open>parseInt\<close> is the identity on port numbers).
\<close>

definition destsOn :: "routing \<Rightarrow> nat \<Rightarrow> nat set \<Rightarrow> nat list" where
  "destsOn farRouting tieLineInput tieLineOutputs =
     map fst (filter (\<lambda>(outIdx, input). input = tieLineInput \<and> outIdx \<notin> tieLineOutputs \<and> outIdx \<noteq> input)
                     (entries farRouting))"

definition rebuild :: "nat option \<Rightarrow> nat list \<Rightarrow> 'c tieLine \<Rightarrow> 'c tieLine" where
  "rebuild sourceOn destsOnFar tieLine =
     (if sourceOn \<noteq> None \<and> length destsOnFar > 0
      then tieLine\<lparr>status := InUse, sourceInput := sourceOn, destinations := destsOnFar\<rparr>
      else tieLine\<lparr>status := Free, sourceInput := None, destinations := []\<rparr>)"

definition reconstructStateFromRouting :: "env \<Rightarrow> engine \<Rightarrow> engine" where
  "reconstructStateFromRouting e eng =
     (if \<not> connectedA e \<or> \<not> connectedB e then eng
      else
        let tieLineAOutputs = set (map routerAOutput (cfg_aToB (config eng)));
            tieLineBOutputs = set (map routerBOutput (cfg_bToA (config eng)))
        in eng\<lparr>state :=
             \<lparr>aToB = map (\<lambda>tieLine.
                        rebuild (routingAt (routingA e) (routerAOutput (ports tieLine)))
                                (destsOn (routingB e) (routerBInput (ports tieLine)) tieLineBOutputs)
                                tieLine)
                      (aToB (state eng)),
              bToA = map (\<lambda>tieLine.
                        rebuild (routingAt (routingB e) (routerBOutput (ports tieLine)))
                                (destsOn (routingA e) (routerAInput (ports tieLine)) tieLineAOutputs)
                                tieLine)
                      (bToA (state eng))\<rparr>\<rparr>)"

definition updateConfig :: "env \<Rightarrow> engine \<Rightarrow> tieLineConfig \<Rightarrow> engine" where
  "updateConfig e eng tieLineCfg =
     (let eng1 = \<lparr>config = tieLineCfg, state = initializeState tieLineCfg\<rparr>
      in if connectedA e \<and> connectedB e then reconstructStateFromRouting e eng1 else eng1)"

subsection \<open>Sequences of operations\<close>

datatype op =
    UpdateConfig env tieLineConfig
  | ExecuteVirtualRoute env nat nat virtualRouter nat
  | ReleaseTieLineDestination direction nat nat
  | ReleaseAllTieLines
  | ReconstructStateFromRouting env

fun step :: "engine \<Rightarrow> op \<Rightarrow> engine" where
  "step eng (UpdateConfig e cfg) = updateConfig e eng cfg"
| "step eng (ExecuteVirtualRoute e virtualOutput virtualInput vr level) =
     fst (snd (executeVirtualRoute e eng virtualOutput virtualInput vr level))"
| "step eng (ReleaseTieLineDestination dir tieLineIndex removedDest) =
     releaseTieLineDestination eng dir tieLineIndex removedDest"
| "step eng ReleaseAllTieLines = releaseAllTieLines eng"
| "step eng (ReconstructStateFromRouting e) = reconstructStateFromRouting e eng"

text \<open>The engine after construction with \<open>cfg\<close> and the operations \<open>ops\<close>, in order.\<close>

definition run :: "tieLineConfig option \<Rightarrow> op list \<Rightarrow> engine" where
  "run cfg ops = foldl step (newEngine cfg) ops"

section \<open>Calls in flight\<close>

text \<open>
  \<^verbatim>\<open>executeVirtualRoute\<close> is an \<^verbatim>\<open>async\<close> function. It runs until its next \<^verbatim>\<open>await\<close> and goes on
  when the awaited promise is settled; whatever else is ready runs in between, another call
  of \<^verbatim>\<open>executeVirtualRoute\<close> for one, as the engine holds no lock. And its two virtual indices
  are whatever the caller passes: \<^verbatim>\<open>resolveInput\<close> and \<^verbatim>\<open>resolveOutput\<close> answer a negative index
  with an object whose \<^verbatim>\<open>physicalIndex\<close> is \<^verbatim>\<open>undefined\<close>, which the engine then uses as a port.
  This section models the calls piece by piece, from one \<^verbatim>\<open>await\<close> to the next, on ports that
  may be \<^verbatim>\<open>undefined\<close>. Names carry a prime where the section before has the same thing on port
  numbers. The configuration is not replaced while calls are in flight, so the record that a
  suspended call holds a reference to is known by its pool and its position there.
\<close>

subsection \<open>Records whose ports may be undefined\<close>

text \<open>A port number, or \<^verbatim>\<open>undefined\<close> (\<open>None\<close>).\<close>

type_synonym port = "nat option"

text \<open>
  A runtime record: \<open>sourceInput'\<close> is \<open>None\<close> for \<^verbatim>\<open>null\<close>, \<open>Some None\<close> for \<^verbatim>\<open>undefined\<close>
  and \<open>Some (Some n)\<close> for port \<open>n\<close>.
\<close>

record 'c tieLine' =
  index' :: nat
  ports' :: 'c
  status' :: status
  sourceInput' :: "port option"
  destinations' :: "port list"

record tieLineState' =
  aToB' :: "cfgAToB tieLine' list"
  bToA' :: "cfgBToA tieLine' list"

text \<open>
  The controllers as one call sees them; \<^verbatim>\<open>setRoute\<close> may be handed \<^verbatim>\<open>undefined\<close> for a port.
\<close>

record env' =
  connectedA' :: bool
  connectedB' :: bool
  setRouteA' :: "port \<Rightarrow> port \<Rightarrow> nat \<Rightarrow> bool"
  setRouteB' :: "port \<Rightarrow> port \<Rightarrow> nat \<Rightarrow> bool"

type_synonym call' = "router \<times> port \<times> port \<times> nat"

text \<open>
  \<^verbatim>\<open>_releaseTieLineDestination\<close>, the search of \<^verbatim>\<open>_handleOutputReassignment\<close> and
  \<^verbatim>\<open>_cleanupOutputTieLine\<close>, and the in-place updates of a record, as in the section before.
  The comparisons are those of the source: \<^verbatim>\<open>undefined\<close> equals \<^verbatim>\<open>undefined\<close> and differs from
  \<^verbatim>\<open>null\<close> and from every number.
\<close>

definition releasePool' :: "'c tieLine' list \<Rightarrow> nat \<Rightarrow> port \<Rightarrow> 'c tieLine' list" where
  "releasePool' pool tieLineIndex removedDest =
     (if tieLineIndex < length pool then
        (let tieLine = pool ! tieLineIndex in
         if status' tieLine \<noteq> InUse then pool
         else
           let ds = filter (\<lambda>d. d \<noteq> removedDest) (destinations' tieLine) in
           if length ds = 0
           then pool[tieLineIndex := tieLine\<lparr>destinations' := ds, status' := Free, sourceInput' := None\<rparr>]
           else pool[tieLineIndex := tieLine\<lparr>destinations' := ds\<rparr>])
      else pool)"

definition releaseTieLineDestination' ::
  "tieLineState' \<Rightarrow> direction \<Rightarrow> nat \<Rightarrow> port \<Rightarrow> tieLineState'" where
  "releaseTieLineDestination' st dir tieLineIndex removedDest =
     (case dir of
        AToB \<Rightarrow> st\<lparr>aToB' := releasePool' (aToB' st) tieLineIndex removedDest\<rparr>
      | BToA \<Rightarrow> st\<lparr>bToA' := releasePool' (bToA' st) tieLineIndex removedDest\<rparr>)"

definition carries' :: "port \<Rightarrow> 'c tieLine' \<Rightarrow> bool" where
  "carries' destOutput = (\<lambda>tl. status' tl = InUse \<and> destOutput \<in> set (destinations' tl))"

definition handleOutputReassignment' :: "tieLineState' \<Rightarrow> direction \<Rightarrow> port \<Rightarrow> tieLineState'" where
  "handleOutputReassignment' st dir destOutput =
     (case dir of
        AToB \<Rightarrow> (case find (carries' destOutput) (aToB' st) of
                   None \<Rightarrow> st
                 | Some oldTieLine \<Rightarrow> releaseTieLineDestination' st AToB (index' oldTieLine) destOutput)
      | BToA \<Rightarrow> (case find (carries' destOutput) (bToA' st) of
                   None \<Rightarrow> st
                 | Some oldTieLine \<Rightarrow> releaseTieLineDestination' st BToA (index' oldTieLine) destOutput))"

definition cleanupOutputTieLine' :: "tieLineState' \<Rightarrow> router \<Rightarrow> router \<Rightarrow> port \<Rightarrow> tieLineState'" where
  "cleanupOutputTieLine' st sourceRouter destRouter destPhysicalOutput =
     (if destRouter = A then
        (case find (carries' destPhysicalOutput) (bToA' st) of
           None \<Rightarrow> st
         | Some tieLine \<Rightarrow> releaseTieLineDestination' st BToA (index' tieLine) destPhysicalOutput)
      else
        (case find (carries' destPhysicalOutput) (aToB' st) of
           None \<Rightarrow> st
         | Some tieLine \<Rightarrow> releaseTieLineDestination' st AToB (index' tieLine) destPhysicalOutput))"

definition addDestination' :: "'c tieLine' \<Rightarrow> port \<Rightarrow> 'c tieLine'" where
  "addDestination' tieLine destOutput =
     (if destOutput \<in> set (destinations' tieLine) then tieLine
      else tieLine\<lparr>destinations' := destinations' tieLine @ [destOutput]\<rparr>)"

definition commit' :: "'c tieLine' \<Rightarrow> port \<Rightarrow> port \<Rightarrow> 'c tieLine'" where
  "commit' tieLine sourceInp destOutput =
     tieLine\<lparr>status' := InUse, sourceInput' := Some sourceInp, destinations' := [destOutput]\<rparr>"

subsection \<open>From one await to the next\<close>

text \<open>
  Where a call waits, with the local variables it goes on with:
  at \<^verbatim>\<open>await this._cleanupOutputTieLine(...)\<close> and \<^verbatim>\<open>await this._handleOutputReassignment(...)\<close>
  in \<^verbatim>\<open>executeVirtualRoute\<close>; at \<^verbatim>\<open>await controller.setRoute(...)\<close> in \<^verbatim>\<open>_routeDirect\<close>; and in
  \<^verbatim>\<open>_routeAToB\<close> and \<^verbatim>\<open>_routeBToA\<close> at the \<^verbatim>\<open>setRoute\<close> of the reuse branch, of step 1 and of
  step 2. The natural number of the last three is the position of \<^verbatim>\<open>tieLine\<close> in its pool.
\<close>

datatype suspended =
    AwaitCleanup env' router port port nat
  | AwaitReassignment env' direction port port nat
  | AwaitDirect env' router port port nat
  | AwaitReuse env' direction nat port nat
  | AwaitFirstLeg env' direction nat port port nat
  | AwaitSecondLeg env' direction nat port port nat

text \<open>
  What one piece of a call yields: the result, if the call has returned, or the place where
  it waits; the state; and the \<^verbatim>\<open>setRoute\<close> commands issued in that piece.
\<close>

type_synonym progress = "(routeResult + suspended) \<times> tieLineState' \<times> call' list"

text \<open>
  \<^verbatim>\<open>_routeDirect\<close>, \<^verbatim>\<open>_routeAToB\<close> and \<^verbatim>\<open>_routeBToA\<close> up to their first \<^verbatim>\<open>await\<close>: the
  connection tests, the two searches, and the first \<^verbatim>\<open>setRoute\<close> issued.
\<close>

definition routeDirect' :: "env' \<Rightarrow> tieLineState' \<Rightarrow> router \<Rightarrow> port \<Rightarrow> port \<Rightarrow> nat \<Rightarrow> progress" where
  "routeDirect' e st r sourceInp destOutput level =
     (if \<not> (if r = A then connectedA' e else connectedB' e)
      then (Inl (Failure (RouterNotConnected r)), st, [])
      else (Inr (AwaitDirect e r sourceInp destOutput level), st, [(r, destOutput, sourceInp, level)]))"

definition routeAToB' :: "env' \<Rightarrow> tieLineState' \<Rightarrow> port \<Rightarrow> port \<Rightarrow> nat \<Rightarrow> progress" where
  "routeAToB' e st sourceInp destOutput level =
     (let pool = aToB' st in
      if \<not> connectedA' e then (Inl (Failure (RouterNotConnected A)), st, [])
      else if \<not> connectedB' e then (Inl (Failure (RouterNotConnected B)), st, [])
      else
        (case findPos (\<lambda>tl. status' tl = InUse \<and> sourceInput' tl = Some sourceInp) pool of
           Some i \<Rightarrow>
             (Inr (AwaitReuse e AToB i destOutput level), st,
              [(B, destOutput, Some (routerBInput (ports' (pool ! i))), level)])
         | None \<Rightarrow>
             (case findPos (\<lambda>tl. status' tl = Free) pool of
                None \<Rightarrow> (Inl (Failure (AllTieLinesInUse AToB (length pool))), st, [])
              | Some i \<Rightarrow>
                  (Inr (AwaitFirstLeg e AToB i sourceInp destOutput level), st,
                   [(A, Some (routerAOutput (ports' (pool ! i))), sourceInp, level)]))))"

definition routeBToA' :: "env' \<Rightarrow> tieLineState' \<Rightarrow> port \<Rightarrow> port \<Rightarrow> nat \<Rightarrow> progress" where
  "routeBToA' e st sourceInp destOutput level =
     (let pool = bToA' st in
      if \<not> connectedB' e then (Inl (Failure (RouterNotConnected B)), st, [])
      else if \<not> connectedA' e then (Inl (Failure (RouterNotConnected A)), st, [])
      else
        (case findPos (\<lambda>tl. status' tl = InUse \<and> sourceInput' tl = Some sourceInp) pool of
           Some i \<Rightarrow>
             (Inr (AwaitReuse e BToA i destOutput level), st,
              [(A, destOutput, Some (routerAInput (ports' (pool ! i))), level)])
         | None \<Rightarrow>
             (case findPos (\<lambda>tl. status' tl = Free) pool of
                None \<Rightarrow> (Inl (Failure (AllTieLinesInUse BToA (length pool))), st, [])
              | Some i \<Rightarrow>
                  (Inr (AwaitFirstLeg e BToA i sourceInp destOutput level), st,
                   [(B, Some (routerBOutput (ports' (pool ! i))), sourceInp, level)]))))"

text \<open>\<^verbatim>\<open>executeVirtualRoute\<close> up to its first \<^verbatim>\<open>await\<close>; the release is done by then.\<close>

definition executeVirtualRoute' ::
  "env' \<Rightarrow> tieLineState' \<Rightarrow> int \<Rightarrow> int \<Rightarrow> virtualRouter \<Rightarrow> nat \<Rightarrow> progress" where
  "executeVirtualRoute' e st virtualOutput virtualInput vr level =
     (case (resolveInput vr virtualInput, resolveOutput vr virtualOutput) of
        (Some source, Some dest) \<Rightarrow>
          if router source = router dest then
            (Inr (AwaitCleanup e (router source) (physicalIndex source) (physicalIndex dest) level),
             cleanupOutputTieLine' st (router source) (router dest) (physicalIndex dest), [])
          else if router source = A \<and> router dest = B then
            (Inr (AwaitReassignment e AToB (physicalIndex source) (physicalIndex dest) level),
             handleOutputReassignment' st AToB (physicalIndex dest), [])
          else if router source = B \<and> router dest = A then
            (Inr (AwaitReassignment e BToA (physicalIndex source) (physicalIndex dest) level),
             handleOutputReassignment' st BToA (physicalIndex dest), [])
          else (Inl (Failure UnknownRoutingScenario), st, [])
      | _ \<Rightarrow> (Inl (Failure InvalidVirtualIndex), st, []))"

text \<open>
  A suspended call goes on, in the state as it is by then: the promise of \<^verbatim>\<open>setRoute\<close> is
  resolved or rejected as the controllers of the call say, and the record that \<^verbatim>\<open>tieLine\<close>
  refers to is read and written as it is now. The ports of a record never change, so the
  command whose promise is settled is the one that was issued.
\<close>

fun resume :: "suspended \<Rightarrow> tieLineState' \<Rightarrow> progress" where
  "resume (AwaitCleanup e r sourceInp destOutput level) st = routeDirect' e st r sourceInp destOutput level"
| "resume (AwaitReassignment e AToB sourceInp destOutput level) st = routeAToB' e st sourceInp destOutput level"
| "resume (AwaitReassignment e BToA sourceInp destOutput level) st = routeBToA' e st sourceInp destOutput level"
| "resume (AwaitDirect e r sourceInp destOutput level) st =
     (if (if r = A then setRouteA' e else setRouteB' e) destOutput sourceInp level
      then (Inl Direct, st, [])
      else (Inl (Failure (RouteFailed r)), st, []))"
| "resume (AwaitReuse e AToB i destOutput level) st =
     (let pool = aToB' st; tieLine = pool ! i in
      if setRouteB' e destOutput (Some (routerBInput (ports' tieLine))) level
      then (Inl (ViaTieLine (index' tieLine) True),
            st\<lparr>aToB' := pool[i := addDestination' tieLine destOutput]\<rparr>, [])
      else (Inl (Failure (RouteFailed B)), st, []))"
| "resume (AwaitReuse e BToA i destOutput level) st =
     (let pool = bToA' st; tieLine = pool ! i in
      if setRouteA' e destOutput (Some (routerAInput (ports' tieLine))) level
      then (Inl (ViaTieLine (index' tieLine) True),
            st\<lparr>bToA' := pool[i := addDestination' tieLine destOutput]\<rparr>, [])
      else (Inl (Failure (RouteFailed A)), st, []))"
| "resume (AwaitFirstLeg e AToB i sourceInp destOutput level) st =
     (let tieLine = aToB' st ! i in
      if \<not> setRouteA' e (Some (routerAOutput (ports' tieLine))) sourceInp level
      then (Inl (Failure (RouteFailed A)), st, [])
      else (Inr (AwaitSecondLeg e AToB i sourceInp destOutput level), st,
            [(B, destOutput, Some (routerBInput (ports' tieLine)), level)]))"
| "resume (AwaitFirstLeg e BToA i sourceInp destOutput level) st =
     (let tieLine = bToA' st ! i in
      if \<not> setRouteB' e (Some (routerBOutput (ports' tieLine))) sourceInp level
      then (Inl (Failure (RouteFailed B)), st, [])
      else (Inr (AwaitSecondLeg e BToA i sourceInp destOutput level), st,
            [(A, destOutput, Some (routerAInput (ports' tieLine)), level)]))"
| "resume (AwaitSecondLeg e AToB i sourceInp destOutput level) st =
     (let pool = aToB' st; tieLine = pool ! i in
      if \<not> setRouteB' e destOutput (Some (routerBInput (ports' tieLine))) level
      then (Inl (PartialFailure (RouteFailed B)), st, [])
      else (Inl (ViaTieLine (index' tieLine) False),
            st\<lparr>aToB' := pool[i := commit' tieLine sourceInp destOutput]\<rparr>, []))"
| "resume (AwaitSecondLeg e BToA i sourceInp destOutput level) st =
     (let pool = bToA' st; tieLine = pool ! i in
      if \<not> setRouteA' e destOutput (Some (routerAInput (ports' tieLine))) level
      then (Inl (PartialFailure (RouteFailed A)), st, [])
      else (Inl (ViaTieLine (index' tieLine) False),
            st\<lparr>bToA' := pool[i := commit' tieLine sourceInp destOutput]\<rparr>, []))"

subsection \<open>The engine and its calls\<close>

text \<open>
  The tie-line state, every call made so far with its result or the place where it waits,
  and the \<^verbatim>\<open>setRoute\<close> commands issued so far. An event is a new call of
  \<^verbatim>\<open>executeVirtualRoute\<close>, which runs to its first \<^verbatim>\<open>await\<close>, or the continuation of the
  \<open>n\<close>-th call, which runs to its next \<^verbatim>\<open>await\<close> or to its end.
\<close>

record system =
  tieLines :: tieLineState'
  callStates :: "(routeResult + suspended) list"
  issued :: "call' list"

datatype event = Call env' int int virtualRouter nat | Resume nat

fun react :: "system \<Rightarrow> event \<Rightarrow> system" where
  "react sys (Call e virtualOutput virtualInput vr level) =
     (case executeVirtualRoute' e (tieLines sys) virtualOutput virtualInput vr level of
        (p, st, cs) \<Rightarrow> \<lparr>tieLines = st, callStates = callStates sys @ [p], issued = issued sys @ cs\<rparr>)"
| "react sys (Resume n) =
     (if n < length (callStates sys) then
        (case callStates sys ! n of
           Inl res \<Rightarrow> sys
         | Inr waiting \<Rightarrow>
             (case resume waiting (tieLines sys) of
                (p, st, cs) \<Rightarrow> \<lparr>tieLines = st, callStates = (callStates sys)[n := p], issued = issued sys @ cs\<rparr>))
      else sys)"

text \<open>A state of the section before, with every port defined.\<close>

definition asObject :: "'c tieLine \<Rightarrow> 'c tieLine'" where
  "asObject t = \<lparr>index' = index t, ports' = ports t, status' = status t,
                 sourceInput' = map_option Some (sourceInput t),
                 destinations' = map Some (destinations t)\<rparr>"

definition asState :: "tieLineState \<Rightarrow> tieLineState'" where
  "asState st = \<lparr>aToB' = map asObject (aToB st), bToA' = map asObject (bToA st)\<rparr>"

text \<open>
  The engine \<open>eng\<close> with no call in flight, and then the events \<open>evs\<close> in order.
\<close>

definition events :: "engine \<Rightarrow> event list \<Rightarrow> system" where
  "events eng evs = foldl react \<lparr>tieLines = asState (state eng), callStates = [], issued = []\<rparr> evs"

text \<open>The result of every call so far; \<open>None\<close> for a call that has not returned.\<close>

definition results :: "system \<Rightarrow> routeResult option list" where
  "results sys = map (\<lambda>c. case c of Inl res \<Rightarrow> Some res | Inr waiting \<Rightarrow> None) (callStates sys)"

text \<open>
  Controllers and commands of the section before, for a call whose ports are all defined.
\<close>

definition asEnv :: "env \<Rightarrow> env'" where
  "asEnv e =
     \<lparr>connectedA' = connectedA e, connectedB' = connectedB e,
      setRouteA' = (\<lambda>output input level.
         case (output, input) of (Some out, Some inp) \<Rightarrow> setRouteA e out inp level | _ \<Rightarrow> False),
      setRouteB' = (\<lambda>output input level.
         case (output, input) of (Some out, Some inp) \<Rightarrow> setRouteB e out inp level | _ \<Rightarrow> False)\<rparr>"

definition asCall :: "call \<Rightarrow> call'" where
  "asCall c = (case c of (r, output, input, level) \<Rightarrow> (r, Some output, Some input, level))"

section \<open>Vocabulary of the statements\<close>

text \<open>The port count and the hidden tie-line ports of a router, by its name.\<close>

definition inputCount :: "virtualRouter \<Rightarrow> router \<Rightarrow> nat" where
  "inputCount vr r = (if r = A then inputs (routerA vr) else inputs (routerB vr))"

definition excludedInputs :: "virtualRouter \<Rightarrow> router \<Rightarrow> nat set" where
  "excludedInputs vr r = (if r = A then excludedAInputs vr else excludedBInputs vr)"

definition outputCount :: "virtualRouter \<Rightarrow> router \<Rightarrow> nat" where
  "outputCount vr r = (if r = A then outputs (routerA vr) else outputs (routerB vr))"

definition excludedOutputs :: "virtualRouter \<Rightarrow> router \<Rightarrow> nat set" where
  "excludedOutputs vr r = (if r = A then excludedAOutputs vr else excludedBOutputs vr)"

text \<open>The number of records of a pool that are in use.\<close>

definition inUseCount :: "'c tieLine list \<Rightarrow> nat" where
  "inUseCount pool = length (filter (\<lambda>tl. status tl = InUse) pool)"

text \<open>
  What \<^verbatim>\<open>_releaseTieLineDestination\<close> makes of a record in use: the destination is
  filtered out, and the record is freed when no destination is left.
\<close>

definition released :: "'c tieLine \<Rightarrow> nat \<Rightarrow> 'c tieLine" where
  "released t d =
     (let ds = filter (\<lambda>x. x \<noteq> d) (destinations t)
      in if ds = [] then t\<lparr>destinations := ds, status := Free, sourceInput := None\<rparr>
         else t\<lparr>destinations := ds\<rparr>)"

text \<open>
  \<open>releasedFrom pool d pool'\<close>: \<open>pool'\<close> is \<open>pool\<close> after the release of destination \<open>d\<close>.
  Nothing changes when no record in use carries \<open>d\<close>; otherwise the first such record,
  which sits at the position its \<open>index\<close> names, is replaced by its \<open>released\<close> form.
\<close>

definition releasedFrom :: "'c tieLine list \<Rightarrow> nat \<Rightarrow> 'c tieLine list \<Rightarrow> bool" where
  "releasedFrom pool d pool' =
     (case find (carries d) pool of
        None \<Rightarrow> pool' = pool
      | Some old \<Rightarrow> index old < length pool \<and> pool ! index old = old \<and>
                    pool' = pool[index old := released old d])"





section \<open>Vocabulary of the proofs\<close>

text \<open>A result on a natural index, as the object the source returns.\<close>

definition asValue :: "nat resolved \<Rightarrow> nat option resolved" where
  "asValue r = \<lparr>router = router r, physicalIndex = Some (physicalIndex r)\<rparr>"

text \<open>The status invariant of one record.\<close>

definition consistent :: "'c tieLine \<Rightarrow> bool" where
  "consistent t = ((status t = InUse) = (destinations t \<noteq> []) \<and>
                   (destinations t \<noteq> []) = (sourceInput t \<noteq> None))"

text \<open>
  The pool after \<^verbatim>\<open>_handleOutputReassignment\<close> or \<^verbatim>\<open>_cleanupOutputTieLine\<close>, which run
  the same search and release.
\<close>

definition reassignPool :: "'c tieLine list \<Rightarrow> nat \<Rightarrow> 'c tieLine list" where
  "reassignPool pool d =
     (case find (carries d) pool of None \<Rightarrow> pool | Some old \<Rightarrow> releasePool pool (index old) d)"

text \<open>
  The parts of a pool that no operation but \<^verbatim>\<open>updateConfig\<close> changes; the records
  numbered by position; pairwise disjoint destination lists.
\<close>

definition skeleton :: "'c tieLine list \<Rightarrow> (nat \<times> 'c) list" where
  "skeleton pool = map (\<lambda>t. (index t, ports t)) pool"

definition positional :: "'c tieLine list \<Rightarrow> bool" where
  "positional pool = (map index pool = [0..<length pool])"


text \<open>
  The ways in which \<^verbatim>\<open>_routeAToB\<close> and \<^verbatim>\<open>_routeBToA\<close> change their pool (not at all,
  one more destination on a record in use, or a record committed), and the ways in which
  \<^verbatim>\<open>executeVirtualRoute\<close> changes a pool.
\<close>

definition routed :: "'c tieLine list \<Rightarrow> nat \<Rightarrow> nat \<Rightarrow> 'c tieLine list \<Rightarrow> bool" where
  "routed pool s d pool' =
     (pool' = pool \<or>
      (\<exists>i<length pool. status (pool ! i) = InUse \<and> pool' = pool[i := addDestination (pool ! i) d]) \<or>
      (\<exists>i<length pool. pool' = pool[i := commit (pool ! i) s d]))"

definition poolStep :: "'c tieLine list \<Rightarrow> 'c tieLine list \<Rightarrow> bool" where
  "poolStep pool pool' = (pool' = pool \<or> (\<exists>s d. routed (reassignPool pool d) s d pool'))"

text \<open>The invariants of the engine.\<close>

definition synced :: "engine \<Rightarrow> bool" where
  "synced eng =
     (skeleton (aToB (state eng)) = enumerate 0 (cfg_aToB (config eng)) \<and>
      skeleton (bToA (state eng)) = enumerate 0 (cfg_bToA (config eng)))"

definition wellFormed :: "engine \<Rightarrow> bool" where
  "wellFormed eng =
     (synced eng \<and> (\<forall>t\<in>set (aToB (state eng)). consistent t) \<and>
      (\<forall>t\<in>set (bToA (state eng)). consistent t))"


text \<open>A pool changed without any record being put to use.\<close>

definition gentle :: "'c tieLine list \<Rightarrow> 'c tieLine list \<Rightarrow> bool" where
  "gentle pool pool' =
     (inUseCount pool' \<le> inUseCount pool \<and> inUseCount pool \<le> inUseCount pool' + 1 \<and>
      length pool' = length pool \<and>
      (\<forall>i<length pool. status (pool ! i) = Free \<longrightarrow> status (pool' ! i) = Free))"

text \<open>One more piece of a call, if it has not returned.\<close>

definition settle :: "progress \<Rightarrow> progress" where
  "settle x =
     (case x of
        (Inl res, st, cs) \<Rightarrow> (Inl res, st, cs)
      | (Inr waiting, st, cs) \<Rightarrow> (case resume waiting st of (p, st', cs') \<Rightarrow> (p, st', cs @ cs')))"

section \<open>Example installations\<close>

text \<open>
  Two 8x8 routers joined by one cable from output 7 of router A to input 0 of router B;
  the same routers with a second cable from output 6 of A to input 1 of B; with one cable
  each way; and with a single cable from output 7 of router B to input 0 of router A.
\<close>

definition exampleConfig :: tieLineConfig where
  "exampleConfig = \<lparr>cfg_aToB = [\<lparr>routerAOutput = 7, routerBInput = 0\<rparr>], cfg_bToA = []\<rparr>"

definition exampleRouter :: virtualRouter where
  "exampleRouter = \<lparr>routerA = \<lparr>inputs = 8, outputs = 8, routing = []\<rparr>, routerB = \<lparr>inputs = 8, outputs = 8, routing = []\<rparr>, tieLineConfig = exampleConfig\<rparr>"



definition bothWays :: tieLineConfig where
  "bothWays = \<lparr>cfg_aToB = [\<lparr>routerAOutput = 7, routerBInput = 0\<rparr>],
                cfg_bToA = [\<lparr>routerBOutput = 6, routerAInput = 5\<rparr>]\<rparr>"

definition mirrorConfig :: tieLineConfig where
  "mirrorConfig = \<lparr>cfg_aToB = [], cfg_bToA = [\<lparr>routerBOutput = 7, routerAInput = 0\<rparr>]\<rparr>"

definition mirrorRouter :: virtualRouter where
  "mirrorRouter = exampleRouter\<lparr>tieLineConfig := mirrorConfig\<rparr>"

text \<open>
  Controllers that are connected and acknowledge every route; the same with router B, or
  router A, rejecting every route; with router B not connected; and with routing tables
  to reconstruct from.
\<close>

definition allOk :: env where
  "allOk = \<lparr>connectedA = True, connectedB = True, routingA = [], routingB = [],
             setRouteA = (\<lambda>output input level. True), setRouteB = (\<lambda>output input level. True)\<rparr>"



definition bDown :: env where
  "bDown = allOk\<lparr>connectedB := False\<rparr>"

definition specExample :: env where
  "specExample = allOk\<lparr>routingA := [None, None, None, None, None, None, None, Some 3],
                        routingB := [Some 0, None, None, None, Some 0, Some 0]\<rparr>"


definition bothWaysReported :: env where
  "bothWaysReported =
     allOk\<lparr>routingA := [None, None, Some 5, None, None, Some 5, None, Some 3],
           routingB := [Some 0, None, None, None, Some 0, Some 0, Some 2]\<rparr>"

text \<open>Engines reached by a few operations.\<close>

definition fresh :: engine where
  "fresh = run (Some exampleConfig) []"

definition afterAllocate :: engine where
  "afterAllocate = run (Some exampleConfig) [ExecuteVirtualRoute allOk 7 0 exampleRouter 0]"






definition mirrorAllocated :: engine where
  "mirrorAllocated = run (Some mirrorConfig) [ExecuteVirtualRoute allOk 0 7 mirrorRouter 0]"

definition mirrorReused :: engine where
  "mirrorReused = run (Some mirrorConfig)
     [ExecuteVirtualRoute allOk 0 7 mirrorRouter 0, ExecuteVirtualRoute allOk 2 7 mirrorRouter 0]"

text \<open>Controllers that are connected and acknowledge every route, whatever the ports.\<close>

definition acknowledging :: env' where
  "acknowledging = \<lparr>connectedA' = True, connectedB' = True,
      setRouteA' = (\<lambda>output input level. True), setRouteB' = (\<lambda>output input level. True)\<rparr>"

section \<open>The virtual index space\<close>

lemma indexOf_nth:
  "distinct xs \<Longrightarrow> i < length xs \<Longrightarrow> indexOf xs (xs ! i) = int i"
proof (induction xs arbitrary: i)
  case Nil
  then show ?case by simp
next
  case (Cons y ys)
  show ?case
  proof (cases i)
    case 0
    then show ?thesis by simp
  next
    case (Suc k)
    with Cons.prems have k: "k < length ys" and d: "distinct ys" and ny: "y \<notin> set ys"
      by auto
    from k ny have "ys ! k \<noteq> y" by (metis nth_mem)
    moreover from Cons.IH[OF d k] have "indexOf ys (ys ! k) = int k" .
    ultimately show ?thesis using Suc by (simp add: Let_def)
  qed
qed

lemma distinct_visible:
  "distinct (visibleAInputs vr)" "distinct (visibleBInputs vr)"
  "distinct (visibleAOutputs vr)" "distinct (visibleBOutputs vr)"
  by (simp_all add: visibleAInputs_def visibleBInputs_def visibleAOutputs_def visibleBOutputs_def)

lemma set_visible:
  "set (visibleAInputs vr) = {i. i < inputs (routerA vr) \<and> i \<notin> excludedAInputs vr}"
  "set (visibleBInputs vr) = {i. i < inputs (routerB vr) \<and> i \<notin> excludedBInputs vr}"
  "set (visibleAOutputs vr) = {i. i < outputs (routerA vr) \<and> i \<notin> excludedAOutputs vr}"
  "set (visibleBOutputs vr) = {i. i < outputs (routerB vr) \<and> i \<notin> excludedBOutputs vr}"
  by (auto simp: visibleAInputs_def visibleBInputs_def visibleAOutputs_def visibleBOutputs_def)

lemma resolveInputAt_defined: "(resolveInputAt vr v \<noteq> None) = (v < totalInputs vr)"
  by (auto simp: resolveInputAt_def totalInputs_def Let_def)

lemma resolveInputAt_Some:
  assumes "resolveInputAt vr v = Some \<lparr>router = r, physicalIndex = p\<rparr>"
  shows "p < inputCount vr r \<and> p \<notin> excludedInputs vr r \<and> physicalInputToVirtual vr r p = int v
       \<and> (if r = A then v < length (visibleAInputs vr) \<and> p = visibleAInputs vr ! v
           else length (visibleAInputs vr) \<le> v \<and> p = visibleBInputs vr ! (v - length (visibleAInputs vr)))"
proof (cases "v < length (visibleAInputs vr)")
  case True
  with assms have r: "r = A" and p: "p = visibleAInputs vr ! v"
    by (auto simp: resolveInputAt_def Let_def)
  from True p have "p \<in> set (visibleAInputs vr)" by simp
  then have "p < inputs (routerA vr) \<and> p \<notin> excludedAInputs vr" by (simp add: set_visible)
  moreover have "indexOf (visibleAInputs vr) p = int v"
    using indexOf_nth[OF distinct_visible(1) True] p by simp
  ultimately show ?thesis using r p True
    by (simp add: inputCount_def excludedInputs_def physicalInputToVirtual_def Let_def)
next
  case False
  let ?k = "v - length (visibleAInputs vr)"
  from False assms have k: "?k < length (visibleBInputs vr)" and r: "r = B" and p: "p = visibleBInputs vr ! ?k"
    by (auto simp: resolveInputAt_def Let_def split: if_splits)
  from k p have "p \<in> set (visibleBInputs vr)" by simp
  then have "p < inputs (routerB vr) \<and> p \<notin> excludedBInputs vr" by (simp add: set_visible)
  moreover have "indexOf (visibleBInputs vr) p = int ?k"
    using indexOf_nth[OF distinct_visible(2) k] p by simp
  ultimately show ?thesis using r p False
    by (simp add: inputCount_def excludedInputs_def physicalInputToVirtual_def Let_def)
qed

lemma resolveOutputAt_defined: "(resolveOutputAt vr v \<noteq> None) = (v < totalOutputs vr)"
  by (auto simp: resolveOutputAt_def totalOutputs_def Let_def)

lemma resolveOutputAt_Some:
  assumes "resolveOutputAt vr v = Some \<lparr>router = r, physicalIndex = p\<rparr>"
  shows "p < outputCount vr r \<and> p \<notin> excludedOutputs vr r \<and> physicalOutputToVirtual vr r p = int v
       \<and> (if r = A then v < length (visibleAOutputs vr) \<and> p = visibleAOutputs vr ! v
           else length (visibleAOutputs vr) \<le> v \<and> p = visibleBOutputs vr ! (v - length (visibleAOutputs vr)))"
proof (cases "v < length (visibleAOutputs vr)")
  case True
  with assms have r: "r = A" and p: "p = visibleAOutputs vr ! v"
    by (auto simp: resolveOutputAt_def Let_def)
  from True p have "p \<in> set (visibleAOutputs vr)" by simp
  then have "p < outputs (routerA vr) \<and> p \<notin> excludedAOutputs vr" by (simp add: set_visible)
  moreover have "indexOf (visibleAOutputs vr) p = int v"
    using indexOf_nth[OF distinct_visible(3) True] p by simp
  ultimately show ?thesis using r p True
    by (simp add: outputCount_def excludedOutputs_def physicalOutputToVirtual_def Let_def)
next
  case False
  let ?k = "v - length (visibleAOutputs vr)"
  from False assms have k: "?k < length (visibleBOutputs vr)" and r: "r = B" and p: "p = visibleBOutputs vr ! ?k"
    by (auto simp: resolveOutputAt_def Let_def split: if_splits)
  from k p have "p \<in> set (visibleBOutputs vr)" by simp
  then have "p < outputs (routerB vr) \<and> p \<notin> excludedBOutputs vr" by (simp add: set_visible)
  moreover have "indexOf (visibleBOutputs vr) p = int ?k"
    using indexOf_nth[OF distinct_visible(4) k] p by simp
  ultimately show ?thesis using r p False
    by (simp add: outputCount_def excludedOutputs_def physicalOutputToVirtual_def Let_def)
qed

lemma upt8: "[0..<8] = [0,1,2,3,4,5,6,7::nat]" by (simp add: upt_rec)

lemma exampleRouter_visible:
  "visibleAInputs exampleRouter = [0,1,2,3,4,5,6,7]" "visibleBInputs exampleRouter = [1,2,3,4,5,6,7]"
  "visibleAOutputs exampleRouter = [0,1,2,3,4,5,6]" "visibleBOutputs exampleRouter = [0,1,2,3,4,5,6,7]"
  by (simp_all add: visibleAInputs_def visibleBInputs_def visibleAOutputs_def visibleBOutputs_def
      excludedAInputs_def excludedBInputs_def excludedAOutputs_def excludedBOutputs_def exampleRouter_def exampleConfig_def upt8)

lemma exampleRouter_resolve:
  "resolveInputAt exampleRouter 0 = Some \<lparr>router = A, physicalIndex = 0\<rparr>"
  "resolveInputAt exampleRouter 8 = Some \<lparr>router = B, physicalIndex = 1\<rparr>"
  "resolveOutputAt exampleRouter 7 = Some \<lparr>router = B, physicalIndex = 0\<rparr>"
  "resolveOutputAt exampleRouter 8 = Some \<lparr>router = B, physicalIndex = 1\<rparr>"
  by (simp_all add: resolveInputAt_def resolveOutputAt_def exampleRouter_visible)

lemma mirrorRouter_visible:
  "visibleAInputs mirrorRouter = [1,2,3,4,5,6,7]" "visibleBInputs mirrorRouter = [0,1,2,3,4,5,6,7]"
  "visibleAOutputs mirrorRouter = [0,1,2,3,4,5,6,7]" "visibleBOutputs mirrorRouter = [0,1,2,3,4,5,6]"
  by (simp_all add: visibleAInputs_def visibleBInputs_def visibleAOutputs_def visibleBOutputs_def
      excludedAInputs_def excludedBInputs_def excludedAOutputs_def excludedBOutputs_def
      mirrorRouter_def exampleRouter_def mirrorConfig_def upt8)

lemma mirrorRouter_resolve:
  "resolveInputAt mirrorRouter 7 = Some \<lparr>router = B, physicalIndex = 0\<rparr>"
  "resolveInputAt mirrorRouter 9 = Some \<lparr>router = B, physicalIndex = 2\<rparr>"
  "resolveInputAt mirrorRouter 2 = Some \<lparr>router = A, physicalIndex = 3\<rparr>"
  "resolveOutputAt mirrorRouter 0 = Some \<lparr>router = A, physicalIndex = 0\<rparr>"
  "resolveOutputAt mirrorRouter 2 = Some \<lparr>router = A, physicalIndex = 2\<rparr>"
  by (simp_all add: resolveInputAt_def resolveOutputAt_def mirrorRouter_visible)

lemma at_nat [simp]: "at xs (int i) = (if i < length xs then Some (xs ! i) else None)"
  by (simp add: at_def)

lemma at_diff:
  "n \<le> v \<Longrightarrow> at xs (int v - int n) = (if v - n < length xs then Some (xs ! (v - n)) else None)"
proof -
  assume le: "n \<le> v"
  then have e: "int v - int n = int (v - n)" by (simp add: of_nat_diff)
  show ?thesis unfolding e by (rule at_nat)
qed

lemma resolve_int:
  "resolveInput vr (int v) = map_option asValue (resolveInputAt vr v)"
  "resolveOutput vr (int v) = map_option asValue (resolveOutputAt vr v)"
proof -
  show "resolveInput vr (int v) = map_option asValue (resolveInputAt vr v)"
  proof (cases "v < length (visibleAInputs vr)")
    case True
    then show ?thesis by (simp add: resolveInput_def resolveInputAt_def Let_def asValue_def)
  next
    case False
    then have le: "length (visibleAInputs vr) \<le> v" by simp
    have c: "int v - int (length (visibleAInputs vr)) < int (length (visibleBInputs vr)) \<longleftrightarrow>
             v - length (visibleAInputs vr) < length (visibleBInputs vr)"
      using le by linarith
    from False show ?thesis
      unfolding resolveInput_def resolveInputAt_def Let_def
      by (simp only: c at_diff[OF le]) (simp add: asValue_def)
  qed
  show "resolveOutput vr (int v) = map_option asValue (resolveOutputAt vr v)"
  proof (cases "v < length (visibleAOutputs vr)")
    case True
    then show ?thesis by (simp add: resolveOutput_def resolveOutputAt_def Let_def asValue_def)
  next
    case False
    then have le: "length (visibleAOutputs vr) \<le> v" by simp
    have c: "int v - int (length (visibleAOutputs vr)) < int (length (visibleBOutputs vr)) \<longleftrightarrow>
             v - length (visibleAOutputs vr) < length (visibleBOutputs vr)"
      using le by linarith
    from False show ?thesis
      unfolding resolveOutput_def resolveOutputAt_def Let_def
      by (simp only: c at_diff[OF le]) (simp add: asValue_def)
  qed
qed

lemma resolve_negative:
  "v < 0 \<Longrightarrow> resolveInput vr v = Some \<lparr>router = A, physicalIndex = None\<rparr>"
  "v < 0 \<Longrightarrow> resolveOutput vr v = Some \<lparr>router = A, physicalIndex = None\<rparr>"
  by (simp_all add: resolveInput_def resolveOutput_def Let_def at_def)

lemma resolveInput_port:
  "resolveInput vr v = Some \<lparr>router = r, physicalIndex = Some p\<rparr> \<longleftrightarrow>
   0 \<le> v \<and> resolveInputAt vr (nat v) = Some \<lparr>router = r, physicalIndex = p\<rparr>"
proof (cases "v < 0")
  case True
  then show ?thesis by (simp add: resolve_negative)
next
  case False
  then obtain n where n: "v = int n" by (metis nat_int not_less zero_le_imp_eq_int)
  show ?thesis unfolding n resolve_int
    by (cases "resolveInputAt vr n") (auto simp: asValue_def)
qed

lemma resolveOutput_port:
  "resolveOutput vr v = Some \<lparr>router = r, physicalIndex = Some p\<rparr> \<longleftrightarrow>
   0 \<le> v \<and> resolveOutputAt vr (nat v) = Some \<lparr>router = r, physicalIndex = p\<rparr>"
proof (cases "v < 0")
  case True
  then show ?thesis by (simp add: resolve_negative)
next
  case False
  then obtain n where n: "v = int n" by (metis nat_int not_less zero_le_imp_eq_int)
  show ?thesis unfolding n resolve_int
    by (cases "resolveOutputAt vr n") (auto simp: asValue_def)
qed

lemma resolved_cases: "\<exists>r p. (x :: nat resolved) = \<lparr>router = r, physicalIndex = p\<rparr>"
  by (cases x) simp

lemma resolveInput_some_port:
  "(\<exists>r p. resolveInput vr v = Some \<lparr>router = r, physicalIndex = Some p\<rparr>) \<longleftrightarrow>
   0 \<le> v \<and> v < int (totalInputs vr)"
proof -
  have a: "(\<exists>r p. resolveInput vr v = Some \<lparr>router = r, physicalIndex = Some p\<rparr>) \<longleftrightarrow>
           0 \<le> v \<and> (\<exists>r p. resolveInputAt vr (nat v) = Some \<lparr>router = r, physicalIndex = p\<rparr>)"
    by (simp add: resolveInput_port)
  have b: "(\<exists>r p. resolveInputAt vr (nat v) = Some \<lparr>router = r, physicalIndex = p\<rparr>) \<longleftrightarrow>
           resolveInputAt vr (nat v) \<noteq> None"
  proof
    assume "\<exists>r p. resolveInputAt vr (nat v) = Some \<lparr>router = r, physicalIndex = p\<rparr>"
    then show "resolveInputAt vr (nat v) \<noteq> None" by auto
  next
    assume "resolveInputAt vr (nat v) \<noteq> None"
    then obtain x where "resolveInputAt vr (nat v) = Some x" by auto
    with resolved_cases[of x] show "\<exists>r p. resolveInputAt vr (nat v) = Some \<lparr>router = r, physicalIndex = p\<rparr>"
      by auto
  qed
  have c: "resolveInputAt vr (nat v) \<noteq> None \<longleftrightarrow> nat v < totalInputs vr"
    by (rule resolveInputAt_defined)
  have d: "0 \<le> v \<Longrightarrow> nat v < totalInputs vr \<longleftrightarrow> v < int (totalInputs vr)"
    by (simp add: nat_less_iff)
  from a b c d show ?thesis by blast
qed

lemma resolveOutput_some_port:
  "(\<exists>r p. resolveOutput vr v = Some \<lparr>router = r, physicalIndex = Some p\<rparr>) \<longleftrightarrow>
   0 \<le> v \<and> v < int (totalOutputs vr)"
proof -
  have a: "(\<exists>r p. resolveOutput vr v = Some \<lparr>router = r, physicalIndex = Some p\<rparr>) \<longleftrightarrow>
           0 \<le> v \<and> (\<exists>r p. resolveOutputAt vr (nat v) = Some \<lparr>router = r, physicalIndex = p\<rparr>)"
    by (simp add: resolveOutput_port)
  have b: "(\<exists>r p. resolveOutputAt vr (nat v) = Some \<lparr>router = r, physicalIndex = p\<rparr>) \<longleftrightarrow>
           resolveOutputAt vr (nat v) \<noteq> None"
  proof
    assume "\<exists>r p. resolveOutputAt vr (nat v) = Some \<lparr>router = r, physicalIndex = p\<rparr>"
    then show "resolveOutputAt vr (nat v) \<noteq> None" by auto
  next
    assume "resolveOutputAt vr (nat v) \<noteq> None"
    then obtain x where "resolveOutputAt vr (nat v) = Some x" by auto
    with resolved_cases[of x] show "\<exists>r p. resolveOutputAt vr (nat v) = Some \<lparr>router = r, physicalIndex = p\<rparr>"
      by auto
  qed
  have c: "resolveOutputAt vr (nat v) \<noteq> None \<longleftrightarrow> nat v < totalOutputs vr"
    by (rule resolveOutputAt_defined)
  have d: "0 \<le> v \<Longrightarrow> nat v < totalOutputs vr \<longleftrightarrow> v < int (totalOutputs vr)"
    by (simp add: nat_less_iff)
  from a b c d show ?thesis by blast
qed

lemma resolveInput_round_trip:
  assumes "resolveInput vr v = Some \<lparr>router = r, physicalIndex = Some p\<rparr>"
  shows "p < inputCount vr r \<and> p \<notin> excludedInputs vr r \<and> physicalInputToVirtual vr r p = v \<and>
         (if r = A then v < int (length (visibleAInputs vr)) \<and> at (visibleAInputs vr) v = Some p
          else int (length (visibleAInputs vr)) \<le> v \<and>
               at (visibleBInputs vr) (v - int (length (visibleAInputs vr))) = Some p)"
proof -
  from assms have "0 \<le> v" by (simp add: resolveInput_port)
  then obtain n where v: "v = int n" by (metis nat_int not_less zero_le_imp_eq_int)
  from assms have n: "resolveInputAt vr n = Some \<lparr>router = r, physicalIndex = p\<rparr>"
    by (simp add: resolveInput_port v)
  then have lt: "n < length (visibleAInputs vr) + length (visibleBInputs vr)"
    using resolveInputAt_defined[of vr n] by (simp add: totalInputs_def)
  note f = resolveInputAt_Some[OF n]
  show ?thesis
  proof (cases "r = A")
    case True
    with f show ?thesis unfolding v by auto
  next
    case False
    with f have le: "length (visibleAInputs vr) \<le> n"
      and q: "p = visibleBInputs vr ! (n - length (visibleAInputs vr))" by simp_all
    from le have e: "int n - int (length (visibleAInputs vr)) = int (n - length (visibleAInputs vr))"
      by simp
    from le lt have "n - length (visibleAInputs vr) < length (visibleBInputs vr)" by simp
    with f False le q show ?thesis unfolding v by (simp add: at_diff)
  qed
qed

lemma resolveOutput_round_trip:
  assumes "resolveOutput vr v = Some \<lparr>router = r, physicalIndex = Some p\<rparr>"
  shows "p < outputCount vr r \<and> p \<notin> excludedOutputs vr r \<and> physicalOutputToVirtual vr r p = v \<and>
         (if r = A then v < int (length (visibleAOutputs vr)) \<and> at (visibleAOutputs vr) v = Some p
          else int (length (visibleAOutputs vr)) \<le> v \<and>
               at (visibleBOutputs vr) (v - int (length (visibleAOutputs vr))) = Some p)"
proof -
  from assms have "0 \<le> v" by (simp add: resolveOutput_port)
  then obtain n where v: "v = int n" by (metis nat_int not_less zero_le_imp_eq_int)
  from assms have n: "resolveOutputAt vr n = Some \<lparr>router = r, physicalIndex = p\<rparr>"
    by (simp add: resolveOutput_port v)
  then have lt: "n < length (visibleAOutputs vr) + length (visibleBOutputs vr)"
    using resolveOutputAt_defined[of vr n] by (simp add: totalOutputs_def)
  note f = resolveOutputAt_Some[OF n]
  show ?thesis
  proof (cases "r = A")
    case True
    with f show ?thesis unfolding v by auto
  next
    case False
    with f have le: "length (visibleAOutputs vr) \<le> n"
      and q: "p = visibleBOutputs vr ! (n - length (visibleAOutputs vr))" by simp_all
    from le have e: "int n - int (length (visibleAOutputs vr)) = int (n - length (visibleAOutputs vr))"
      by simp
    from le lt have "n - length (visibleAOutputs vr) < length (visibleBOutputs vr)" by simp
    with f False le q show ?thesis unfolding v by (simp add: at_diff)
  qed
qed

lemma resolve_null:
  "resolveInput vr v = None \<longleftrightarrow> int (totalInputs vr) \<le> v"
  "resolveOutput vr v = None \<longleftrightarrow> int (totalOutputs vr) \<le> v"
  by (auto simp: resolveInput_def resolveOutput_def totalInputs_def totalOutputs_def Let_def)

text \<open>
  From 0 on the two mappings are inverse to each other: \<^verbatim>\<open>resolveInput(v)\<close> returns a router
  and a port exactly when \<open>v < totalInputs\<close>; the port is then in range and not a tie-line
  port, \<^verbatim>\<open>physicalInputToVirtual\<close> gives \<open>v\<close> back, and the indices of router A's visible
  ports come before those of router B's. The same holds of outputs.
\<close>

lemma round_trip_from_zero:
  assumes "0 \<le> v"
  shows "((\<exists>r p. resolveInput vr v = Some \<lparr>router = r, physicalIndex = Some p\<rparr>) \<longleftrightarrow>
            v < int (totalInputs vr)) \<and>
         (resolveInput vr v = None \<longleftrightarrow> int (totalInputs vr) \<le> v) \<and>
         (\<forall>r p. resolveInput vr v = Some \<lparr>router = r, physicalIndex = Some p\<rparr> \<longrightarrow>
            p < inputCount vr r \<and> p \<notin> excludedInputs vr r \<and> physicalInputToVirtual vr r p = v \<and>
            (if r = A then v < int (length (visibleAInputs vr)) \<and> at (visibleAInputs vr) v = Some p
             else int (length (visibleAInputs vr)) \<le> v \<and>
                  at (visibleBInputs vr) (v - int (length (visibleAInputs vr))) = Some p)) \<and>
         ((\<exists>r p. resolveOutput vr v = Some \<lparr>router = r, physicalIndex = Some p\<rparr>) \<longleftrightarrow>
            v < int (totalOutputs vr)) \<and>
         (resolveOutput vr v = None \<longleftrightarrow> int (totalOutputs vr) \<le> v) \<and>
         (\<forall>r p. resolveOutput vr v = Some \<lparr>router = r, physicalIndex = Some p\<rparr> \<longrightarrow>
            p < outputCount vr r \<and> p \<notin> excludedOutputs vr r \<and> physicalOutputToVirtual vr r p = v \<and>
            (if r = A then v < int (length (visibleAOutputs vr)) \<and> at (visibleAOutputs vr) v = Some p
             else int (length (visibleAOutputs vr)) \<le> v \<and>
                  at (visibleBOutputs vr) (v - int (length (visibleAOutputs vr))) = Some p))"
  using assms resolveInput_some_port[of vr v] resolveInput_round_trip[of vr v]
    resolveOutput_some_port[of vr v] resolveOutput_round_trip[of vr v]
    resolve_null[of vr v]
  by blast

lemma exampleRouter_resolve_int:
  "resolveInput exampleRouter 8 = Some \<lparr>router = B, physicalIndex = Some 1\<rparr>"
  "resolveOutput exampleRouter 8 = Some \<lparr>router = B, physicalIndex = Some 1\<rparr>"
  "resolveInput exampleRouter (- 1) = Some \<lparr>router = A, physicalIndex = None\<rparr>"
  "resolveOutput exampleRouter (- 1) = Some \<lparr>router = A, physicalIndex = None\<rparr>"
  by (simp_all add: resolveInput_def resolveOutput_def exampleRouter_visible at_def)

lemma exampleRouter_totals: "totalInputs exampleRouter = 15" "totalOutputs exampleRouter = 15"
  by (simp_all add: totalInputs_def totalOutputs_def exampleRouter_visible)

text \<open>
  C9. The claim fails below 0. For the index -1 the comparison \<^verbatim>\<open>virtualIndex < aInputs.length\<close>
  holds, and \<^verbatim>\<open>resolveInput\<close> returns an object for router A whose \<^verbatim>\<open>physicalIndex\<close> is
  \<^verbatim>\<open>aInputs[-1]\<close>, that is \<^verbatim>\<open>undefined\<close>, where the claim has no result outside
  \<open>0 \<le> v < totalInputs\<close>; \<^verbatim>\<open>resolveOutput\<close> does the same. The result is not \<^verbatim>\<open>null\<close>, which
  is all that the callers of the two functions test.
\<close>

theorem index_round_trip_below_zero:
  "resolveInput exampleRouter (- 1) = Some \<lparr>router = A, physicalIndex = None\<rparr> \<and>
   resolveInput exampleRouter (- 1) \<noteq> None \<and>
   resolveOutput exampleRouter (- 1) = Some \<lparr>router = A, physicalIndex = None\<rparr> \<and>
   resolveOutput exampleRouter (- 1) \<noteq> None \<and>
   totalInputs exampleRouter = 15 \<and> totalOutputs exampleRouter = 15"
  by (simp add: exampleRouter_resolve_int exampleRouter_totals)

section \<open>Invariants of the engine\<close>

subsection \<open>find\<close>

lemma findPos_Some:
  "findPos P xs = Some i \<Longrightarrow> i < length xs \<and> P (xs ! i) \<and> (\<forall>j<i. \<not> P (xs ! j))"
proof (induction xs arbitrary: i)
  case Nil
  then show ?case by simp
next
  case (Cons x xs)
  show ?case
  proof (cases "P x")
    case True
    with Cons.prems show ?thesis by simp
  next
    case False
    with Cons.prems obtain k where k: "findPos P xs = Some k" and i: "i = Suc k"
      by (auto split: option.splits)
    from Cons.IH[OF k] False i show ?thesis
      by (auto simp: less_Suc_eq_0_disj)
  qed
qed


lemma find_Some_nth:
  "find P xs = Some x \<Longrightarrow> \<exists>i<length xs. xs ! i = x \<and> P x"
  by (auto simp: find_Some_iff)

subsection \<open>records\<close>

lemma released_simps [simp]:
  "index (released t d) = index t" "ports (released t d) = ports t"
  "destinations (released t d) = filter (\<lambda>x. x \<noteq> d) (destinations t)"
  by (simp_all add: released_def Let_def)

lemma status_released:
  "status (released t d) = (if filter (\<lambda>x. x \<noteq> d) (destinations t) = [] then Free else status t)"
  by (simp add: released_def Let_def)

lemma sourceInput_released:
  "sourceInput (released t d) = (if filter (\<lambda>x. x \<noteq> d) (destinations t) = [] then None else sourceInput t)"
  by (simp add: released_def Let_def)

lemma consistent_released: "consistent t \<Longrightarrow> consistent (released t d)"
  by (auto simp: consistent_def status_released sourceInput_released filter_empty_conv)

lemma addDestination_simps [simp]:
  "index (addDestination t d) = index t" "ports (addDestination t d) = ports t"
  "status (addDestination t d) = status t" "sourceInput (addDestination t d) = sourceInput t"
  "set (destinations (addDestination t d)) = insert d (set (destinations t))"
  by (auto simp: addDestination_def)

lemma consistent_addDestination:
  "consistent t \<Longrightarrow> status t = InUse \<Longrightarrow> consistent (addDestination t d)"
  by (auto simp: consistent_def addDestination_def)

lemma commit_simps [simp]:
  "index (commit t s d) = index t" "ports (commit t s d) = ports t"
  "status (commit t s d) = InUse" "sourceInput (commit t s d) = Some s"
  "destinations (commit t s d) = [d]"
  by (simp_all add: commit_def)

lemma consistent_commit: "consistent (commit t s d)"
  by (simp add: consistent_def)

lemma rebuild_simps [simp]:
  "index (rebuild s ds t) = index t" "ports (rebuild s ds t) = ports t"
  by (simp_all add: rebuild_def)

lemma consistent_rebuild: "consistent (rebuild s ds t)"
  by (auto simp: consistent_def rebuild_def)


subsection \<open>pools\<close>

lemma releasePool_eq:
  "releasePool pool i d =
     (if i < length pool \<and> status (pool ! i) = InUse then pool[i := released (pool ! i) d] else pool)"
  by (simp add: releasePool_def released_def Let_def)

lemma length_releasePool [simp]: "length (releasePool pool i d) = length pool"
  by (simp add: releasePool_eq)

lemma length_reassignPool [simp]: "length (reassignPool pool d) = length pool"
  by (simp add: reassignPool_def split: option.splits)

lemma skeleton_update:
  "i < length pool \<Longrightarrow> index t = index (pool ! i) \<Longrightarrow> ports t = ports (pool ! i) \<Longrightarrow>
   skeleton (pool[i := t]) = skeleton pool"
  by (simp add: skeleton_def map_update list_update_same_conv)

lemma skeleton_releasePool [simp]: "skeleton (releasePool pool i d) = skeleton pool"
  by (simp add: releasePool_eq skeleton_update)

lemma skeleton_reassignPool [simp]: "skeleton (reassignPool pool d) = skeleton pool"
  by (simp add: reassignPool_def split: option.splits)

lemma skeleton_length: "skeleton p = skeleton q \<Longrightarrow> length p = length q"
  by (metis length_map skeleton_def)

lemma skeleton_nth:
  "skeleton p = skeleton q \<Longrightarrow> i < length p \<Longrightarrow> index (p ! i) = index (q ! i) \<and> ports (p ! i) = ports (q ! i)"
proof -
  assume a: "skeleton p = skeleton q" and i: "i < length p"
  then have "skeleton p ! i = skeleton q ! i" by simp
  moreover from a i have "i < length q" using skeleton_length by metis
  ultimately show ?thesis using i by (simp add: skeleton_def)
qed

lemma consistent_update:
  "\<forall>t\<in>set pool. consistent t \<Longrightarrow> consistent u \<Longrightarrow> \<forall>t\<in>set (pool[i := u]). consistent t"
  by (metis insert_iff set_update_subset_insert subsetD)

lemma consistent_releasePool:
  "\<forall>t\<in>set pool. consistent t \<Longrightarrow> \<forall>t\<in>set (releasePool pool i d). consistent t"
proof (cases "i < length pool \<and> status (pool ! i) = InUse")
  case True
  assume a: "\<forall>t\<in>set pool. consistent t"
  with True have "consistent (released (pool ! i) d)"
    by (simp add: consistent_released)
  from consistent_update[OF a this] True show ?thesis
    by (simp add: releasePool_eq)
next
  case False
  assume "\<forall>t\<in>set pool. consistent t"
  moreover from False have "releasePool pool i d = pool" by (auto simp: releasePool_eq)
  ultimately show ?thesis by simp
qed

lemma consistent_reassignPool:
  "\<forall>t\<in>set pool. consistent t \<Longrightarrow> \<forall>t\<in>set (reassignPool pool d). consistent t"
  by (simp add: reassignPool_def consistent_releasePool split: option.splits)

lemma positional_nth: "positional pool \<Longrightarrow> i < length pool \<Longrightarrow> index (pool ! i) = i"
proof -
  assume a: "positional pool" and i: "i < length pool"
  from i have "index (pool ! i) = map index pool ! i" by simp
  also from a i have "\<dots> = i" by (simp add: positional_def)
  finally show ?thesis .
qed

lemma positional_skeleton: "skeleton p = skeleton q \<Longrightarrow> positional q \<Longrightarrow> positional p"
proof -
  assume a: "skeleton p = skeleton q" and q: "positional q"
  have "map index p = map fst (skeleton p)" by (simp add: skeleton_def comp_def)
  also have "\<dots> = map index q" using a by (simp add: skeleton_def comp_def)
  finally show ?thesis using q skeleton_length[OF a] by (simp add: positional_def)
qed









subsection \<open>routing tables\<close>


lemma entries_keys_sorted: "sorted_wrt (<) (map fst (entries r))"
proof -
  have "\<And>xs. sorted_wrt (<) xs \<Longrightarrow>
      sorted_wrt (<) (map fst (concat (map (\<lambda>output. case r ! output of None \<Rightarrow> [] | Some input \<Rightarrow> [(output, input)]) xs)))"
  proof -
    fix xs :: "nat list"
    show "sorted_wrt (<) xs \<Longrightarrow>
      sorted_wrt (<) (map fst (concat (map (\<lambda>output. case r ! output of None \<Rightarrow> [] | Some input \<Rightarrow> [(output, input)]) xs)))"
      by (induction xs) (auto split: option.splits)
  qed
  from this[of "[0..<length r]"] show ?thesis by (simp add: entries_def)
qed


lemma destsOn_sorted: "sorted_wrt (<) (destsOn far inp outs)"
proof -
  have "\<And>P (xs :: (nat \<times> nat) list). sorted_wrt (<) (map fst xs) \<Longrightarrow> sorted_wrt (<) (map fst (filter P xs))"
  proof -
    fix P and xs :: "(nat \<times> nat) list"
    show "sorted_wrt (<) (map fst xs) \<Longrightarrow> sorted_wrt (<) (map fst (filter P xs))"
      by (induction xs) auto
  qed
  from this[OF entries_keys_sorted] show ?thesis by (simp add: destsOn_def)
qed


subsection \<open>engine steps\<close>

lemma releaseTieLineDestination_simps:
  "config (releaseTieLineDestination eng dir i d) = config eng"
  "aToB (state (releaseTieLineDestination eng dir i d)) =
     (if dir = AToB then releasePool (aToB (state eng)) i d else aToB (state eng))"
  "bToA (state (releaseTieLineDestination eng dir i d)) =
     (if dir = BToA then releasePool (bToA (state eng)) i d else bToA (state eng))"
  by (simp_all add: releaseTieLineDestination_def split: direction.splits)

lemma handleOutputReassignment_simps:
  "config (handleOutputReassignment eng dir d) = config eng"
  "aToB (state (handleOutputReassignment eng dir d)) =
     (if dir = AToB then reassignPool (aToB (state eng)) d else aToB (state eng))"
  "bToA (state (handleOutputReassignment eng dir d)) =
     (if dir = BToA then reassignPool (bToA (state eng)) d else bToA (state eng))"
  by (simp_all add: handleOutputReassignment_def reassignPool_def releaseTieLineDestination_simps
      split: direction.splits option.splits)

lemma cleanupOutputTieLine_eq:
  "cleanupOutputTieLine eng sr dr d = handleOutputReassignment eng (if dr = A then BToA else AToB) d"
  by (simp add: cleanupOutputTieLine_def handleOutputReassignment_def)

lemma routeDirect_engine: "fst (snd (routeDirect e eng r s d l)) = eng"
  by (simp add: routeDirect_def)

lemma routeAToB_engine:
  "config (fst (snd (routeAToB e eng s d l))) = config eng"
  "bToA (state (fst (snd (routeAToB e eng s d l)))) = bToA (state eng)"
  "routed (aToB (state eng)) s d (aToB (state (fst (snd (routeAToB e eng s d l)))))"
  by (auto simp: routeAToB_def Let_def routed_def dest: findPos_Some split: option.splits)

lemma routeBToA_engine:
  "config (fst (snd (routeBToA e eng s d l))) = config eng"
  "aToB (state (fst (snd (routeBToA e eng s d l)))) = aToB (state eng)"
  "routed (bToA (state eng)) s d (bToA (state (fst (snd (routeBToA e eng s d l)))))"
  by (auto simp: routeBToA_def Let_def routed_def dest: findPos_Some split: option.splits)

lemma routed_refl: "routed pool s d pool"
  by (simp add: routed_def)

lemma poolStep_refl: "poolStep pool pool"
  by (simp add: poolStep_def)

lemma poolStep_reassign: "poolStep pool (reassignPool pool d)"
  unfolding poolStep_def using routed_refl by blast

lemma executeVirtualRoute_engine:
  "config (fst (snd (executeVirtualRoute e eng vo vi vr l))) = config eng"
  "poolStep (aToB (state eng)) (aToB (state (fst (snd (executeVirtualRoute e eng vo vi vr l)))))"
  "poolStep (bToA (state eng)) (bToA (state (fst (snd (executeVirtualRoute e eng vo vi vr l)))))"
proof -
  let ?eng' = "fst (snd (executeVirtualRoute e eng vo vi vr l))"
  have "config ?eng' = config eng \<and> poolStep (aToB (state eng)) (aToB (state ?eng')) \<and>
        poolStep (bToA (state eng)) (bToA (state ?eng'))"
  proof (cases "resolveInputAt vr vi")
    case None
    then show ?thesis by (simp add: executeVirtualRoute_def poolStep_refl)
  next
    case (Some source)
    note src = this
    show ?thesis
    proof (cases "resolveOutputAt vr vo")
      case None
      with src show ?thesis by (simp add: executeVirtualRoute_def poolStep_refl)
    next
      case (Some dest)
      let ?d = "physicalIndex dest" and ?s = "physicalIndex source"
      consider (same) "router source = router dest"
        | (ab) "router source = A" "router dest = B"
        | (ba) "router source = B" "router dest = A"
        by (cases "router source"; cases "router dest") auto
      then show ?thesis
      proof cases
        case same
        then have e: "?eng' = handleOutputReassignment eng (if router dest = A then BToA else AToB) ?d"
          using src Some by (simp add: executeVirtualRoute_def routeDirect_engine cleanupOutputTieLine_eq)
        show ?thesis unfolding e
          by (simp add: handleOutputReassignment_simps poolStep_refl poolStep_reassign)
      next
        case ab
        let ?e1 = "handleOutputReassignment eng AToB ?d"
        from ab have e: "?eng' = fst (snd (routeAToB e ?e1 ?s ?d l))"
          using src Some by (simp add: executeVirtualRoute_def)
        have "routed (reassignPool (aToB (state eng)) ?d) ?s ?d (aToB (state ?eng'))"
          unfolding e using routeAToB_engine(3)[of ?e1 ?s ?d e l]
          by (simp add: handleOutputReassignment_simps)
        then show ?thesis unfolding e
          by (auto simp: routeAToB_engine handleOutputReassignment_simps poolStep_def)
      next
        case ba
        let ?e1 = "handleOutputReassignment eng BToA ?d"
        from ba have e: "?eng' = fst (snd (routeBToA e ?e1 ?s ?d l))"
          using src Some by (simp add: executeVirtualRoute_def)
        have "routed (reassignPool (bToA (state eng)) ?d) ?s ?d (bToA (state ?eng'))"
          unfolding e using routeBToA_engine(3)[of ?e1 ?s ?d e l]
          by (simp add: handleOutputReassignment_simps)
        then show ?thesis unfolding e
          by (auto simp: routeBToA_engine handleOutputReassignment_simps poolStep_def)
      qed
    qed
  qed
  then show "config ?eng' = config eng"
    and "poolStep (aToB (state eng)) (aToB (state ?eng'))"
    and "poolStep (bToA (state eng)) (bToA (state ?eng'))" by simp_all
qed

subsection \<open>invariants of a pool step\<close>

lemma routed_skeleton: "routed pool s d pool' \<Longrightarrow> skeleton pool' = skeleton pool"
  by (auto simp: routed_def skeleton_update)

lemma poolStep_skeleton: "poolStep pool pool' \<Longrightarrow> skeleton pool' = skeleton pool"
  by (auto simp: poolStep_def dest: routed_skeleton)

lemma routed_consistent:
  assumes "routed pool s d pool'" "\<forall>t\<in>set pool. consistent t"
  shows "\<forall>t\<in>set pool'. consistent t"
proof -
  from assms(1) consider "pool' = pool"
    | i where "i < length pool" "status (pool ! i) = InUse" "pool' = pool[i := addDestination (pool ! i) d]"
    | i where "i < length pool" "pool' = pool[i := commit (pool ! i) s d]"
    by (auto simp: routed_def)
  then show ?thesis
  proof cases
    case 1
    with assms(2) show ?thesis by simp
  next
    case 2
    with assms(2) have "consistent (addDestination (pool ! i) d)"
      by (simp add: consistent_addDestination)
    from consistent_update[OF assms(2) this] 2 show ?thesis by simp
  next
    case 3
    from consistent_update[OF assms(2) consistent_commit] 3 show ?thesis by simp
  qed
qed

lemma poolStep_consistent:
  "poolStep pool pool' \<Longrightarrow> \<forall>t\<in>set pool. consistent t \<Longrightarrow> \<forall>t\<in>set pool'. consistent t"
proof -
  assume p: "poolStep pool pool'" and c: "\<forall>t\<in>set pool. consistent t"
  show "\<forall>t\<in>set pool'. consistent t"
  proof (cases "pool' = pool")
    case True
    with c show ?thesis by simp
  next
    case False
    with p obtain s d where r: "routed (reassignPool pool d) s d pool'"
      by (auto simp: poolStep_def)
    from routed_consistent[OF r consistent_reassignPool[OF c]] show ?thesis .
  qed
qed



subsection \<open>invariants of the engine\<close>

lemma synced_positional:
  "synced eng \<Longrightarrow> positional (aToB (state eng)) \<and> positional (bToA (state eng))"
proof -
  assume a: "synced eng"
  have "\<And>(pool :: 'c tieLine list) xs. skeleton pool = enumerate 0 xs \<Longrightarrow> positional pool"
  proof -
    fix pool :: "'c tieLine list" and xs assume e: "skeleton pool = enumerate 0 xs"
    have "map index pool = map fst (skeleton pool)" by (simp add: skeleton_def comp_def)
    also have "\<dots> = [0..<length xs]" by (simp add: e)
    also have "length xs = length pool" using e by (metis length_enumerate length_map skeleton_def)
    finally show "positional pool" by (simp add: positional_def)
  qed
  from this[of "aToB (state eng)"] this[of "bToA (state eng)"] a show ?thesis
    by (simp add: synced_def)
qed

lemma synced_ports:
  "synced eng \<Longrightarrow> map ports (aToB (state eng)) = cfg_aToB (config eng) \<and>
                   map ports (bToA (state eng)) = cfg_bToA (config eng)"
proof -
  assume a: "synced eng"
  have "\<And>(pool :: 'c tieLine list) xs. skeleton pool = enumerate 0 xs \<Longrightarrow> map ports pool = xs"
  proof -
    fix pool :: "'c tieLine list" and xs assume e: "skeleton pool = enumerate 0 xs"
    have "map ports pool = map snd (skeleton pool)" by (simp add: skeleton_def comp_def)
    also have "\<dots> = xs" by (simp add: e)
    finally show "map ports pool = xs" .
  qed
  from this[of "aToB (state eng)"] this[of "bToA (state eng)"] a show ?thesis
    by (simp add: synced_def)
qed

lemma initializeState_skeleton:
  "skeleton (aToB (initializeState cfg)) = enumerate 0 (cfg_aToB cfg)"
  "skeleton (bToA (initializeState cfg)) = enumerate 0 (cfg_bToA cfg)"
  by (simp_all add: initializeState_def skeleton_def comp_def case_prod_beta)

lemma initializeState_idle:
  "\<forall>t\<in>set (aToB (initializeState cfg)). status t = Free \<and> sourceInput t = None \<and> destinations t = []"
  "\<forall>t\<in>set (bToA (initializeState cfg)). status t = Free \<and> sourceInput t = None \<and> destinations t = []"
  by (auto simp: initializeState_def)

lemma idle_pool_consistent:
  "\<forall>t\<in>set pool. status t = Free \<and> sourceInput t = None \<and> destinations t = [] \<Longrightarrow>
   \<forall>t\<in>set pool. consistent t"
  by (simp add: consistent_def)


lemma reconstruct_pools:
  "config (reconstructStateFromRouting e eng) = config eng"
  "skeleton (aToB (state (reconstructStateFromRouting e eng))) = skeleton (aToB (state eng))"
  "skeleton (bToA (state (reconstructStateFromRouting e eng))) = skeleton (bToA (state eng))"
  by (simp_all add: reconstructStateFromRouting_def Let_def skeleton_def comp_def)

lemma reconstruct_consistent:
  assumes "\<forall>t\<in>set (aToB (state eng)). consistent t" "\<forall>t\<in>set (bToA (state eng)). consistent t"
  shows "(\<forall>t\<in>set (aToB (state (reconstructStateFromRouting e eng))). consistent t) \<and>
         (\<forall>t\<in>set (bToA (state (reconstructStateFromRouting e eng))). consistent t)"
  using assms by (auto simp: reconstructStateFromRouting_def Let_def consistent_rebuild)


lemma wellFormed_initial: "wellFormed \<lparr>config = cfg, state = initializeState cfg\<rparr>"
  using initializeState_idle[of cfg]
  by (simp add: wellFormed_def synced_def initializeState_skeleton idle_pool_consistent)

lemma wellFormed_newEngine: "wellFormed (newEngine c)"
  by (simp add: newEngine_def Let_def wellFormed_initial)

lemma wellFormed_reconstruct: "wellFormed eng \<Longrightarrow> wellFormed (reconstructStateFromRouting e eng)"
  using reconstruct_consistent[where eng=eng and e=e]
  by (simp add: wellFormed_def synced_def reconstruct_pools)

lemma wellFormed_step: "wellFormed eng \<Longrightarrow> wellFormed (step eng op)"
proof (cases op)
  case (UpdateConfig e cfg)
  then show ?thesis
    by (simp add: updateConfig_def Let_def wellFormed_initial wellFormed_reconstruct)
next
  case (ExecuteVirtualRoute e vo vi vr l)
  assume w: "wellFormed eng"
  let ?eng' = "fst (snd (executeVirtualRoute e eng vo vi vr l))"
  have c: "config ?eng' = config eng"
    and a: "poolStep (aToB (state eng)) (aToB (state ?eng'))"
    and b: "poolStep (bToA (state eng)) (bToA (state ?eng'))"
    by (rule executeVirtualRoute_engine)+
  from w show ?thesis unfolding ExecuteVirtualRoute
    by (simp add: wellFormed_def synced_def c poolStep_skeleton[OF a] poolStep_skeleton[OF b]
        poolStep_consistent[OF a] poolStep_consistent[OF b])
next
  case (ReleaseTieLineDestination dir i d)
  assume w: "wellFormed eng"
  then have ca: "\<forall>t\<in>set (aToB (state eng)). consistent t"
    and cb: "\<forall>t\<in>set (bToA (state eng)). consistent t"
    by (simp_all add: wellFormed_def)
  from w consistent_releasePool[OF ca] consistent_releasePool[OF cb]
  show ?thesis unfolding ReleaseTieLineDestination
    by (cases dir) (simp_all add: wellFormed_def synced_def releaseTieLineDestination_simps)
next
  case ReleaseAllTieLines
  assume "wellFormed eng"
  then show ?thesis unfolding ReleaseAllTieLines
    by (simp add: wellFormed_def synced_def releaseAllTieLines_def skeleton_def comp_def consistent_def)
next
  case (ReconstructStateFromRouting e)
  assume "wellFormed eng"
  then show ?thesis unfolding ReconstructStateFromRouting
    by (simp add: wellFormed_reconstruct)
qed

lemma wellFormed_foldl: "wellFormed eng \<Longrightarrow> wellFormed (foldl step eng ops)"
  by (induction ops arbitrary: eng) (simp_all add: wellFormed_step)

lemma wellFormed_run: "wellFormed (run c ops)"
  by (simp add: run_def wellFormed_foldl wellFormed_newEngine)

section \<open>What holds in every state the engine reaches\<close>

subsection \<open>the example engines\<close>

lemma afterAllocate_state:
  "state afterAllocate =
     \<lparr>aToB = [\<lparr>index = 0, ports = \<lparr>routerAOutput = 7, routerBInput = 0\<rparr>, status = InUse,
               sourceInput = Some 0, destinations = [0]\<rparr>],
      bToA = []\<rparr>"
  by code_simp


lemma mirror_states:
  "state mirrorAllocated =
     \<lparr>aToB = [],
      bToA = [\<lparr>index = 0, ports = \<lparr>routerBOutput = 7, routerAInput = 0\<rparr>, status = InUse,
               sourceInput = Some 0, destinations = [0]\<rparr>]\<rparr>"
  "state mirrorReused =
     \<lparr>aToB = [],
      bToA = [\<lparr>index = 0, ports = \<lparr>routerBOutput = 7, routerAInput = 0\<rparr>, status = InUse,
               sourceInput = Some 0, destinations = [0, 2]\<rparr>]\<rparr>"
  by code_simp+




subsection \<open>preservation of exclusivity\<close>







subsection \<open>status and position\<close>

text \<open>
  C1 (amended). After construction and any sequence of operations, each of which has returned
  before the next one starts and is given natural numbers for its virtual indices, every
  record of either pool is in use exactly when it has destinations, and has destinations
  exactly when its \<open>sourceInput\<close> is set.
\<close>

theorem status_consistency:
  "(\<forall>tl\<in>set (aToB (state (run cfg ops))).
      (status tl = InUse \<longleftrightarrow> destinations tl \<noteq> []) \<and>
      (destinations tl \<noteq> [] \<longleftrightarrow> sourceInput tl \<noteq> None)) \<and>
   (\<forall>tl\<in>set (bToA (state (run cfg ops))).
      (status tl = InUse \<longleftrightarrow> destinations tl \<noteq> []) \<and>
      (destinations tl \<noteq> [] \<longleftrightarrow> sourceInput tl \<noteq> None))"
  using wellFormed_run[of cfg ops] by (simp add: wellFormed_def consistent_def)

theorem status_consistency_witness:
  "aToB (state afterAllocate) \<noteq> [] \<and>
   status (hd (aToB (state afterAllocate))) = InUse \<and>
   destinations (hd (aToB (state afterAllocate))) \<noteq> [] \<and>
   sourceInput (hd (aToB (state afterAllocate))) \<noteq> None"
proof -
  note t = status_consistency[of "Some exampleConfig" "[ExecuteVirtualRoute allOk 7 0 exampleRouter 0]"]
  have m: "hd (aToB (state afterAllocate)) \<in> set (aToB (state afterAllocate))"
    and u: "status (hd (aToB (state afterAllocate))) = InUse"
    by (simp_all add: afterAllocate_state)
  from t m have "(status (hd (aToB (state afterAllocate))) = InUse \<longleftrightarrow>
                  destinations (hd (aToB (state afterAllocate))) \<noteq> []) \<and>
                 (destinations (hd (aToB (state afterAllocate))) \<noteq> [] \<longleftrightarrow>
                  sourceInput (hd (aToB (state afterAllocate))) \<noteq> None)"
    unfolding afterAllocate_def by blast
  with u m show ?thesis by auto
qed

text \<open>
  C1 as stated fails, in two ways. Calls that overlap: with the line carrying source 0 to
  output 0 of router B, a route of output 1 of B from source 0 finds the line, sends its
  command and waits; a route of output 0 of B from input 1 of B then releases output 0 and
  frees the line; the first call goes on and adds output 1 to the freed record. Both calls
  return success, and the record is free, without a source, with one destination. A negative
  index: on the fresh engine, the route of virtual output 7 from virtual input -1 returns
  success and leaves the line in use, with a destination and an undefined \<^verbatim>\<open>sourceInput\<close>.
\<close>

theorem status_consistency_counterexample:
  "tieLines (events afterAllocate
     [Call acknowledging 8 0 exampleRouter 0, Resume 0,
      Call acknowledging 7 8 exampleRouter 0, Resume 0, Resume 1, Resume 1]) =
     \<lparr>aToB' = [\<lparr>index' = 0, ports' = \<lparr>routerAOutput = 7, routerBInput = 0\<rparr>, status' = Free,
                 sourceInput' = None, destinations' = [Some 1]\<rparr>],
      bToA' = []\<rparr> \<and>
   results (events afterAllocate
     [Call acknowledging 8 0 exampleRouter 0, Resume 0,
      Call acknowledging 7 8 exampleRouter 0, Resume 0, Resume 1, Resume 1]) =
     [Some (ViaTieLine 0 True), Some Direct] \<and>
   tieLines (events fresh
     [Call acknowledging 7 (- 1) exampleRouter 0, Resume 0, Resume 0, Resume 0]) =
     \<lparr>aToB' = [\<lparr>index' = 0, ports' = \<lparr>routerAOutput = 7, routerBInput = 0\<rparr>, status' = InUse,
                 sourceInput' = Some None, destinations' = [Some 0]\<rparr>],
      bToA' = []\<rparr> \<and>
   results (events fresh
     [Call acknowledging 7 (- 1) exampleRouter 0, Resume 0, Resume 0, Resume 0]) =
     [Some (ViaTieLine 0 False)]"
  by code_simp



subsection \<open>at most one tie-line for a destination\<close>





section \<open>Routes that reuse a tie-line\<close>

lemma executeVirtualRoute_cross:
  assumes "resolveInputAt vr vi = Some src" "resolveOutputAt vr vo = Some dst"
  shows "router src = A \<Longrightarrow> router dst = B \<Longrightarrow>
           executeVirtualRoute e eng vo vi vr l =
             routeAToB e (handleOutputReassignment eng AToB (physicalIndex dst))
               (physicalIndex src) (physicalIndex dst) l"
    and "router src = B \<Longrightarrow> router dst = A \<Longrightarrow>
           executeVirtualRoute e eng vo vi vr l =
             routeBToA e (handleOutputReassignment eng BToA (physicalIndex dst))
               (physicalIndex src) (physicalIndex dst) l"
    and "router src = router dst \<Longrightarrow>
           executeVirtualRoute e eng vo vi vr l =
             routeDirect e (cleanupOutputTieLine eng (router src) (router dst) (physicalIndex dst))
               (router src) (physicalIndex src) (physicalIndex dst) l"
  using assms by (simp_all add: executeVirtualRoute_def)

lemma executeVirtualRoute_invalid:
  "resolveInputAt vr vi = None \<or> resolveOutputAt vr vo = None \<Longrightarrow>
   executeVirtualRoute e eng vo vi vr l = (Failure InvalidVirtualIndex, eng, [])"
  by (auto simp: executeVirtualRoute_def split: option.splits)







lemma reassignPool_untouched:
  "\<forall>t\<in>set pool. \<not> carries d t \<Longrightarrow> reassignPool pool d = pool"
  by (simp add: reassignPool_def find_None_iff[THEN iffD2] split: option.splits)




lemma gentle_refl: "gentle pool pool"
  by (simp add: gentle_def)

















section \<open>A pool with no tie-line to give\<close>

lemma reassignPool_releasedFrom:
  assumes "positional pool"
  shows "releasedFrom pool d (reassignPool pool d)"
proof (cases "find (carries d) pool")
  case None
  then show ?thesis by (simp add: releasedFrom_def reassignPool_def)
next
  case (Some old)
  then obtain i where i: "i < length pool" and o: "pool ! i = old" and c: "carries d old"
    using find_Some_nth by metis
  from positional_nth[OF assms i] o have idx: "index old = i" by simp
  from c have "status old = InUse" by (simp add: carries_def)
  with Some idx i o show ?thesis
    by (simp add: releasedFrom_def reassignPool_def releasePool_eq)
qed

lemma run_positional:
  "positional (aToB (state (run cfg ops)))" "positional (bToA (state (run cfg ops)))"
  using synced_positional[of "run cfg ops"] wellFormed_run[of cfg ops]
  by (simp_all add: wellFormed_def)

lemma run_consistent:
  "\<forall>t\<in>set (aToB (state (run cfg ops))). consistent t"
  "\<forall>t\<in>set (bToA (state (run cfg ops))). consistent t"
  using wellFormed_run[of cfg ops] by (simp_all add: wellFormed_def)











section \<open>Failure of the second leg\<close>


lemma handleOutputReassignment_run:
  "releasedFrom (aToB (state (run cfg ops))) d (aToB (state (handleOutputReassignment (run cfg ops) AToB d)))"
  "releasedFrom (bToA (state (run cfg ops))) d (bToA (state (handleOutputReassignment (run cfg ops) BToA d)))"
  "\<forall>t\<in>set (aToB (state (handleOutputReassignment (run cfg ops) dir d))). consistent t"
  "\<forall>t\<in>set (bToA (state (handleOutputReassignment (run cfg ops) dir d))). consistent t"
  using run_positional[of cfg ops] run_consistent[of cfg ops]
  by (simp_all add: handleOutputReassignment_simps reassignPool_releasedFrom consistent_reassignPool)




section \<open>Failure on the reuse path\<close>





section \<open>Routes within one router\<close>

lemma filter_twice:
  assumes "i < length xs" "j < length xs" "i < j" "P (xs ! i)" "P (xs ! j)"
  shows "2 \<le> length (filter P xs)"
proof -
  have "xs ! i \<in> set (take j xs)"
    using assms(1,2,3) by (metis in_set_conv_nth length_take min.absorb2 nat_less_le nth_take)
  with assms(4) have "filter P (take j xs) \<noteq> []" by (auto simp: filter_empty_conv)
  then have a: "1 \<le> length (filter P (take j xs))" by (simp add: Suc_leI)
  have "xs ! j \<in> set (drop j xs)"
    using assms(2) by (metis Cons_nth_drop_Suc list.set_intros(1))
  with assms(5) have "filter P (drop j xs) \<noteq> []" by (auto simp: filter_empty_conv)
  then have b: "1 \<le> length (filter P (drop j xs))" by (simp add: Suc_leI)
  have "filter P xs = filter P (take j xs) @ filter P (drop j xs)"
    by (metis append_take_drop_id filter_append)
  with a b show ?thesis by simp
qed

lemma filter_once:
  assumes "length (filter P xs) \<le> 1" "i < length xs" "j < length xs" "P (xs ! i)" "P (xs ! j)"
  shows "i = j"
proof (rule ccontr)
  assume "i \<noteq> j"
  then consider "i < j" | "j < i" by linarith
  then have "2 \<le> length (filter P xs)"
    using assms(2-5) filter_twice[of i xs j P] filter_twice[of j xs i P] by cases auto
  with assms(1) show False by simp
qed

lemma releasedFrom_clears:
  assumes con: "\<forall>t\<in>set pool. consistent t" and rel: "releasedFrom pool d pool'"
    and one: "length (filter (\<lambda>tl. d \<in> set (destinations tl)) pool) \<le> 1"
  shows "\<forall>t\<in>set pool'. d \<notin> set (destinations t)"
proof (cases "find (carries d) pool")
  case None
  then have nc: "\<forall>t\<in>set pool. \<not> carries d t" by (simp add: find_None_iff)
  have "\<forall>t\<in>set pool. d \<notin> set (destinations t)"
  proof
    fix t assume t: "t \<in> set pool"
    show "d \<notin> set (destinations t)"
    proof
      assume m: "d \<in> set (destinations t)"
      then have "destinations t \<noteq> []" by auto
      with con t have "status t = InUse" by (simp add: consistent_def)
      with m nc t show False by (simp add: carries_def)
    qed
  qed
  with None rel show ?thesis by (simp add: releasedFrom_def)
next
  case (Some old)
  let ?i = "index old"
  from Some rel have i: "?i < length pool" and o: "pool ! ?i = old"
    and eq: "pool' = pool[?i := released old d]"
    by (simp_all add: releasedFrom_def)
  from Some have "carries d old" by (metis find_Some_iff)
  then have m: "d \<in> set (destinations (pool ! ?i))" using o by (simp add: carries_def)
  show ?thesis
  proof
    fix t assume "t \<in> set pool'"
    then obtain j where j: "j < length pool" and t: "t = pool[?i := released old d] ! j"
      unfolding eq by (metis in_set_conv_nth length_list_update)
    show "d \<notin> set (destinations t)"
    proof (cases "j = ?i")
      case True
      with t i show ?thesis by simp
    next
      case False
      have "d \<notin> set (destinations (pool ! j))"
      proof
        assume "d \<in> set (destinations (pool ! j))"
        from filter_once[OF one j i this m] False show False by simp
      qed
      with False t show ?thesis by simp
    qed
  qed
qed

lemma routeDirect_cases:
  "routeDirect e eng A s d l =
     (if \<not> connectedA e then (Failure (RouterNotConnected A), eng, [])
      else if setRouteA e d s l then (Direct, eng, [(A, d, s, l)])
      else (Failure (RouteFailed A), eng, [(A, d, s, l)]))"
  "routeDirect e eng B s d l =
     (if \<not> connectedB e then (Failure (RouterNotConnected B), eng, [])
      else if setRouteB e d s l then (Direct, eng, [(B, d, s, l)])
      else (Failure (RouteFailed B), eng, [(B, d, s, l)]))"
  by (simp_all add: routeDirect_def)

text \<open>
  C6 (amended). In a state reached by any operations, take a route whose source and
  destination are on the same router R. The engine first releases the destination port in
  the pool directed into R: the first record in use that carries the port loses it, and is
  freed exactly when that was its last destination; nothing else changes, no \<^verbatim>\<open>setRoute\<close> is
  issued for it, and where at most one record carried the port, none does afterwards. Then,
  if R is connected, exactly one \<^verbatim>\<open>setRoute(dstPort, srcPort, level)\<close> is issued on R; if R is
  not connected, none is issued and the call fails, the release having been done.
\<close>

theorem release_on_retarget:
  fixes e :: env and cfg ops vr vo vi l src dst
  defines "eng \<equiv> run cfg ops"
  defines "s \<equiv> physicalIndex src" and "d \<equiv> physicalIndex dst"
  defines "intoA \<equiv> handleOutputReassignment eng BToA d"
    and "intoB \<equiv> handleOutputReassignment eng AToB d"
  assumes "resolveInputAt vr vi = Some src" and "resolveOutputAt vr vo = Some dst"
    and "router src = router dst"
  shows "(router dst = A \<longrightarrow>
          executeVirtualRoute e eng vo vi vr l =
            (if \<not> connectedA e then (Failure (RouterNotConnected A), intoA, [])
             else if setRouteA e d s l then (Direct, intoA, [(A, d, s, l)])
             else (Failure (RouteFailed A), intoA, [(A, d, s, l)])) \<and>
          config intoA = config eng \<and> aToB (state intoA) = aToB (state eng) \<and>
          releasedFrom (bToA (state eng)) d (bToA (state intoA)) \<and>
          (length (filter (\<lambda>tl. d \<in> set (destinations tl)) (bToA (state eng))) \<le> 1 \<longrightarrow>
           (\<forall>tl\<in>set (bToA (state intoA)). d \<notin> set (destinations tl)))) \<and>
         (router dst = B \<longrightarrow>
          executeVirtualRoute e eng vo vi vr l =
            (if \<not> connectedB e then (Failure (RouterNotConnected B), intoB, [])
             else if setRouteB e d s l then (Direct, intoB, [(B, d, s, l)])
             else (Failure (RouteFailed B), intoB, [(B, d, s, l)])) \<and>
          config intoB = config eng \<and> bToA (state intoB) = bToA (state eng) \<and>
          releasedFrom (aToB (state eng)) d (aToB (state intoB)) \<and>
          (length (filter (\<lambda>tl. d \<in> set (destinations tl)) (aToB (state eng))) \<le> 1 \<longrightarrow>
           (\<forall>tl\<in>set (aToB (state intoB)). d \<notin> set (destinations tl))))"
proof (intro conjI impI)
  assume a: "router dst = A"
  with assms(8) have "executeVirtualRoute e eng vo vi vr l = routeDirect e intoA A s d l"
    using executeVirtualRoute_cross(3)[OF assms(6,7)]
    by (simp add: cleanupOutputTieLine_eq intoA_def s_def d_def)
  then show "executeVirtualRoute e eng vo vi vr l =
            (if \<not> connectedA e then (Failure (RouterNotConnected A), intoA, [])
             else if setRouteA e d s l then (Direct, intoA, [(A, d, s, l)])
             else (Failure (RouteFailed A), intoA, [(A, d, s, l)]))"
    by (simp only: routeDirect_cases)
  show "config intoA = config eng" "aToB (state intoA) = aToB (state eng)"
    by (simp_all add: intoA_def handleOutputReassignment_simps)
  show r: "releasedFrom (bToA (state eng)) d (bToA (state intoA))"
    unfolding intoA_def eng_def by (rule handleOutputReassignment_run)
  assume "length (filter (\<lambda>tl. d \<in> set (destinations tl)) (bToA (state eng))) \<le> 1"
  from releasedFrom_clears[OF _ r this] run_consistent(2)[of cfg ops]
  show "\<forall>tl\<in>set (bToA (state intoA)). d \<notin> set (destinations tl)" by (simp add: eng_def)
next
  assume b: "router dst = B"
  with assms(8) have "executeVirtualRoute e eng vo vi vr l = routeDirect e intoB B s d l"
    using executeVirtualRoute_cross(3)[OF assms(6,7)]
    by (simp add: cleanupOutputTieLine_eq intoB_def s_def d_def)
  then show "executeVirtualRoute e eng vo vi vr l =
            (if \<not> connectedB e then (Failure (RouterNotConnected B), intoB, [])
             else if setRouteB e d s l then (Direct, intoB, [(B, d, s, l)])
             else (Failure (RouteFailed B), intoB, [(B, d, s, l)]))"
    by (simp only: routeDirect_cases)
  show "config intoB = config eng" "bToA (state intoB) = bToA (state eng)"
    by (simp_all add: intoB_def handleOutputReassignment_simps)
  show r: "releasedFrom (aToB (state eng)) d (aToB (state intoB))"
    unfolding intoB_def eng_def by (rule handleOutputReassignment_run)
  assume "length (filter (\<lambda>tl. d \<in> set (destinations tl)) (aToB (state eng))) \<le> 1"
  from releasedFrom_clears[OF _ r this] run_consistent(1)[of cfg ops]
  show "\<forall>tl\<in>set (aToB (state intoB)). d \<notin> set (destinations tl)" by (simp add: eng_def)
qed

lemma exampleRouter_resolve_B:
  "resolveInputAt exampleRouter 13 = Some \<lparr>router = B, physicalIndex = 6\<rparr>"
  by (simp add: resolveInputAt_def exampleRouter_visible)

lemma afterAllocate_retarget_down:
  "fst (executeVirtualRoute bDown afterAllocate 7 13 exampleRouter 0) = Failure (RouterNotConnected B)"
  "snd (snd (executeVirtualRoute bDown afterAllocate 7 13 exampleRouter 0)) = []"
  "map status (aToB (state (fst (snd (executeVirtualRoute bDown afterAllocate 7 13 exampleRouter 0))))) = [Free]"
  by code_simp+

text \<open>
  C6 as stated fails: with router B not connected, retargeting destination 0 of router B to
  an input of router B releases and frees the line, but issues no \<^verbatim>\<open>setRoute\<close> at all.
\<close>

theorem release_on_retarget_counterexample:
  "resolveInputAt exampleRouter 13 = Some \<lparr>router = B, physicalIndex = 6\<rparr> \<and>
   resolveOutputAt exampleRouter 7 = Some \<lparr>router = B, physicalIndex = 0\<rparr> \<and>
   fst (executeVirtualRoute bDown afterAllocate 7 13 exampleRouter 0) = Failure (RouterNotConnected B) \<and>
   snd (snd (executeVirtualRoute bDown afterAllocate 7 13 exampleRouter 0)) = [] \<and>
   map status (aToB (state afterAllocate)) = [InUse] \<and>
   map status (aToB (state (fst (snd (executeVirtualRoute bDown afterAllocate 7 13 exampleRouter 0))))) = [Free]"
  by (simp add: exampleRouter_resolve exampleRouter_resolve_B afterAllocate_retarget_down
      afterAllocate_state)

theorem release_on_retarget_witness:
  "(resolveInputAt exampleRouter 13 = Some \<lparr>router = B, physicalIndex = 6\<rparr> \<and>
    resolveOutputAt exampleRouter 7 = Some \<lparr>router = B, physicalIndex = 0\<rparr> \<and>
    executeVirtualRoute allOk afterAllocate 7 13 exampleRouter 0 =
      (Direct, handleOutputReassignment afterAllocate AToB 0, [(B, 0, 6, 0)]) \<and>
    length (filter (\<lambda>tl. 0 \<in> set (destinations tl)) (aToB (state afterAllocate))) \<le> 1 \<and>
    0 \<notin> set (destinations (aToB (state (handleOutputReassignment afterAllocate AToB 0)) ! 0)) \<and>
    map status (aToB (state (handleOutputReassignment afterAllocate AToB 0))) = [Free]) \<and>
   (resolveInputAt mirrorRouter 2 = Some \<lparr>router = A, physicalIndex = 3\<rparr> \<and>
    resolveOutputAt mirrorRouter 0 = Some \<lparr>router = A, physicalIndex = 0\<rparr> \<and>
    executeVirtualRoute allOk mirrorAllocated 0 2 mirrorRouter 0 =
      (Direct, handleOutputReassignment mirrorAllocated BToA 0, [(A, 0, 3, 0)]) \<and>
    length (filter (\<lambda>tl. 0 \<in> set (destinations tl)) (bToA (state mirrorAllocated))) \<le> 1 \<and>
    0 \<notin> set (destinations (bToA (state (handleOutputReassignment mirrorAllocated BToA 0)) ! 0)) \<and>
    map status (bToA (state (handleOutputReassignment mirrorAllocated BToA 0))) = [Free])"
proof -
  have part1:
    "resolveInputAt exampleRouter 13 = Some \<lparr>router = B, physicalIndex = 6\<rparr> \<and>
     resolveOutputAt exampleRouter 7 = Some \<lparr>router = B, physicalIndex = 0\<rparr> \<and>
     executeVirtualRoute allOk afterAllocate 7 13 exampleRouter 0 =
       (Direct, handleOutputReassignment afterAllocate AToB 0, [(B, 0, 6, 0)]) \<and>
     length (filter (\<lambda>tl. 0 \<in> set (destinations tl)) (aToB (state afterAllocate))) \<le> 1 \<and>
     0 \<notin> set (destinations (aToB (state (handleOutputReassignment afterAllocate AToB 0)) ! 0)) \<and>
     map status (aToB (state (handleOutputReassignment afterAllocate AToB 0))) = [Free]"
  proof -
    have r1: "resolveInputAt exampleRouter 13 = Some \<lparr>router = B, physicalIndex = 6\<rparr>"
      and r2: "resolveOutputAt exampleRouter 7 = Some \<lparr>router = B, physicalIndex = 0\<rparr>"
      by (simp_all add: exampleRouter_resolve exampleRouter_resolve_B)
    have same: "router \<lparr>router = B, physicalIndex = 6\<rparr> = router \<lparr>router = B, physicalIndex = 0\<rparr>"
      by simp
    have one: "length (filter (\<lambda>tl. 0 \<in> set (destinations tl)) (aToB (state afterAllocate))) \<le> 1"
      by (simp add: afterAllocate_state)
    have st: "map status (aToB (state (handleOutputReassignment afterAllocate AToB 0))) = [Free]"
      by code_simp
    note t = release_on_retarget[OF r1 r2 same, where e = allOk and cfg = "Some exampleConfig"
        and ops = "[ExecuteVirtualRoute allOk 7 0 exampleRouter 0]" and l = 0]
    from t have "executeVirtualRoute allOk afterAllocate 7 13 exampleRouter 0 =
       (Direct, handleOutputReassignment afterAllocate AToB 0, [(B, 0, 6, 0)])"
      unfolding afterAllocate_def by (simp add: allOk_def)
    moreover from t one
    have "\<forall>tl\<in>set (aToB (state (handleOutputReassignment afterAllocate AToB 0))). 0 \<notin> set (destinations tl)"
      unfolding afterAllocate_def by simp
    moreover have "aToB (state (handleOutputReassignment afterAllocate AToB 0)) ! 0
        \<in> set (aToB (state (handleOutputReassignment afterAllocate AToB 0)))"
      by code_simp
    ultimately show ?thesis using r1 r2 one st by simp
  qed
  have part2:
    "resolveInputAt mirrorRouter 2 = Some \<lparr>router = A, physicalIndex = 3\<rparr> \<and>
     resolveOutputAt mirrorRouter 0 = Some \<lparr>router = A, physicalIndex = 0\<rparr> \<and>
     executeVirtualRoute allOk mirrorAllocated 0 2 mirrorRouter 0 =
       (Direct, handleOutputReassignment mirrorAllocated BToA 0, [(A, 0, 3, 0)]) \<and>
     length (filter (\<lambda>tl. 0 \<in> set (destinations tl)) (bToA (state mirrorAllocated))) \<le> 1 \<and>
     0 \<notin> set (destinations (bToA (state (handleOutputReassignment mirrorAllocated BToA 0)) ! 0)) \<and>
     map status (bToA (state (handleOutputReassignment mirrorAllocated BToA 0))) = [Free]"
  proof -
    have r1: "resolveInputAt mirrorRouter 2 = Some \<lparr>router = A, physicalIndex = 3\<rparr>"
      and r2: "resolveOutputAt mirrorRouter 0 = Some \<lparr>router = A, physicalIndex = 0\<rparr>"
      by (simp_all add: mirrorRouter_resolve)
    have same: "router \<lparr>router = A, physicalIndex = 3\<rparr> = router \<lparr>router = A, physicalIndex = 0\<rparr>"
      by simp
    have one: "length (filter (\<lambda>tl. 0 \<in> set (destinations tl)) (bToA (state mirrorAllocated))) \<le> 1"
      by (simp add: mirror_states)
    have st: "map status (bToA (state (handleOutputReassignment mirrorAllocated BToA 0))) = [Free]"
      by code_simp
    note t = release_on_retarget[OF r1 r2 same, where e = allOk and cfg = "Some mirrorConfig"
        and ops = "[ExecuteVirtualRoute allOk 0 7 mirrorRouter 0]" and l = 0]
    from t have "executeVirtualRoute allOk mirrorAllocated 0 2 mirrorRouter 0 =
       (Direct, handleOutputReassignment mirrorAllocated BToA 0, [(A, 0, 3, 0)])"
      unfolding mirrorAllocated_def by (simp add: allOk_def)
    moreover from t one
    have "\<forall>tl\<in>set (bToA (state (handleOutputReassignment mirrorAllocated BToA 0))). 0 \<notin> set (destinations tl)"
      unfolding mirrorAllocated_def by simp
    moreover have "bToA (state (handleOutputReassignment mirrorAllocated BToA 0)) ! 0
        \<in> set (bToA (state (handleOutputReassignment mirrorAllocated BToA 0)))"
      by code_simp
    ultimately show ?thesis using r1 r2 one st by simp
  qed
  from part1 part2 show ?thesis by blast
qed

section \<open>Reconstruction from the routing tables\<close>

lemma destsOn_upt:
  "destsOn far inp outs =
     filter (\<lambda>output. routingAt far output = Some inp \<and> output \<notin> outs \<and> output \<noteq> inp)
            [0..<length far]"
proof -
  let ?g = "\<lambda>output. case far ! output of None \<Rightarrow> [] | Some input \<Rightarrow> [(output, input)]"
  let ?Q = "\<lambda>(outIdx, input). input = inp \<and> outIdx \<notin> outs \<and> outIdx \<noteq> input"
  let ?R = "\<lambda>output. routingAt far output = Some inp \<and> output \<notin> outs \<and> output \<noteq> inp"
  have "\<And>xs. \<forall>x\<in>set xs. x < length far \<Longrightarrow>
          map fst (filter ?Q (concat (map ?g xs))) = filter ?R xs"
  proof -
    fix xs :: "nat list"
    show "\<forall>x\<in>set xs. x < length far \<Longrightarrow> map fst (filter ?Q (concat (map ?g xs))) = filter ?R xs"
      by (induction xs) (auto simp: routingAt_def split: option.splits)
  qed
  from this[of "[0..<length far]"] show ?thesis by (simp add: destsOn_def entries_def)
qed

lemma reconstruct_nth:
  assumes "connectedA e" "connectedB e"
  shows "i < length (aToB (state eng)) \<Longrightarrow>
           aToB (state (reconstructStateFromRouting e eng)) ! i =
             rebuild (routingAt (routingA e) (routerAOutput (ports (aToB (state eng) ! i))))
               (destsOn (routingB e) (routerBInput (ports (aToB (state eng) ! i)))
                  (set (map routerBOutput (cfg_bToA (config eng)))))
               (aToB (state eng) ! i)"
    and "j < length (bToA (state eng)) \<Longrightarrow>
           bToA (state (reconstructStateFromRouting e eng)) ! j =
             rebuild (routingAt (routingB e) (routerBOutput (ports (bToA (state eng) ! j))))
               (destsOn (routingA e) (routerAInput (ports (bToA (state eng) ! j)))
                  (set (map routerAOutput (cfg_aToB (config eng)))))
               (bToA (state eng) ! j)"
  using assms by (simp_all add: reconstructStateFromRouting_def Let_def)

lemma rebuild_fields:
  "status (rebuild s ds t) = (if s \<noteq> None \<and> ds \<noteq> [] then InUse else Free)"
  "sourceInput (rebuild s ds t) = (if s \<noteq> None \<and> ds \<noteq> [] then s else None)"
  "destinations (rebuild s ds t) = (if s \<noteq> None \<and> ds \<noteq> [] then ds else [])"
  by (simp_all add: rebuild_def)

lemma run_ports:
  "i < length (cfg_aToB (config (run cfg ops))) \<Longrightarrow>
     i < length (aToB (state (run cfg ops))) \<and>
     ports (aToB (state (run cfg ops)) ! i) = cfg_aToB (config (run cfg ops)) ! i \<and>
     index (aToB (state (run cfg ops)) ! i) = i"
  "j < length (cfg_bToA (config (run cfg ops))) \<Longrightarrow>
     j < length (bToA (state (run cfg ops))) \<and>
     ports (bToA (state (run cfg ops)) ! j) = cfg_bToA (config (run cfg ops)) ! j \<and>
     index (bToA (state (run cfg ops)) ! j) = j"
proof -
  have s: "synced (run cfg ops)" using wellFormed_run[of cfg ops] by (simp add: wellFormed_def)
  note p = synced_ports[OF s] and q = run_positional[of cfg ops]
  from p have la: "length (aToB (state (run cfg ops))) = length (cfg_aToB (config (run cfg ops)))"
    and lb: "length (bToA (state (run cfg ops))) = length (cfg_bToA (config (run cfg ops)))"
    by (metis length_map)+
  show "i < length (cfg_aToB (config (run cfg ops))) \<Longrightarrow>
     i < length (aToB (state (run cfg ops))) \<and>
     ports (aToB (state (run cfg ops)) ! i) = cfg_aToB (config (run cfg ops)) ! i \<and>
     index (aToB (state (run cfg ops)) ! i) = i"
    using la p q(1) positional_nth[of "aToB (state (run cfg ops))" i] by (metis nth_map)
  show "j < length (cfg_bToA (config (run cfg ops))) \<Longrightarrow>
     j < length (bToA (state (run cfg ops))) \<and>
     ports (bToA (state (run cfg ops)) ! j) = cfg_bToA (config (run cfg ops)) ! j \<and>
     index (bToA (state (run cfg ops)) ! j) = j"
    using lb p q(2) positional_nth[of "bToA (state (run cfg ops))" j] by (metis nth_map)
qed

text \<open>
  C7 (amended). Run \<^verbatim>\<open>reconstructStateFromRouting\<close> in a state reached by any operations. If a
  controller is not connected, the engine is left as it was. If both are connected, then
  for the \<open>i\<close>-th configured cable \<open>(aOut, bIn)\<close> from A to B, with \<open>destsOnB\<close> the outputs
  \<open>o\<close> of router B, in ascending order, such that \<open>routingB[o] = bIn\<close>, \<open>o\<close> is not a configured
  B to A tie-line output and \<open>o \<noteq> bIn\<close>: the \<open>i\<close>-th record is in use with
  \<open>sourceInput = routingA[aOut]\<close> and destinations \<open>destsOnB\<close> when \<open>routingA[aOut]\<close> is defined
  and \<open>destsOnB\<close> is not empty, and free with no source and no destinations otherwise.
  Symmetrically for the \<open>j\<close>-th cable from B to A.
\<close>

theorem reconstruction:
  fixes e :: env and cfg ops i j
  defines "eng \<equiv> run cfg ops"
  defines "eng' \<equiv> reconstructStateFromRouting e eng"
  defines "aOut \<equiv> routerAOutput (cfg_aToB (config eng) ! i)"
    and "bIn \<equiv> routerBInput (cfg_aToB (config eng) ! i)"
    and "bOut \<equiv> routerBOutput (cfg_bToA (config eng) ! j)"
    and "aIn \<equiv> routerAInput (cfg_bToA (config eng) ! j)"
  defines "destsOnB \<equiv>
      filter (\<lambda>output. routingAt (routingB e) output = Some bIn \<and>
                output \<notin> set (map routerBOutput (cfg_bToA (config eng))) \<and> output \<noteq> bIn)
             [0..<length (routingB e)]"
    and "destsOnA \<equiv>
      filter (\<lambda>output. routingAt (routingA e) output = Some aIn \<and>
                output \<notin> set (map routerAOutput (cfg_aToB (config eng))) \<and> output \<noteq> aIn)
             [0..<length (routingA e)]"
  shows "(\<not> connectedA e \<or> \<not> connectedB e \<longrightarrow> eng' = eng) \<and>
         (connectedA e \<and> connectedB e \<longrightarrow>
         (i < length (cfg_aToB (config eng)) \<longrightarrow>
          index (aToB (state eng') ! i) = i \<and>
          ports (aToB (state eng') ! i) = cfg_aToB (config eng) ! i \<and>
          (if routingAt (routingA e) aOut \<noteq> None \<and> destsOnB \<noteq> []
           then status (aToB (state eng') ! i) = InUse \<and>
                sourceInput (aToB (state eng') ! i) = routingAt (routingA e) aOut \<and>
                destinations (aToB (state eng') ! i) = destsOnB
           else status (aToB (state eng') ! i) = Free \<and>
                sourceInput (aToB (state eng') ! i) = None \<and>
                destinations (aToB (state eng') ! i) = [])) \<and>
         (j < length (cfg_bToA (config eng)) \<longrightarrow>
          index (bToA (state eng') ! j) = j \<and>
          ports (bToA (state eng') ! j) = cfg_bToA (config eng) ! j \<and>
          (if routingAt (routingB e) bOut \<noteq> None \<and> destsOnA \<noteq> []
           then status (bToA (state eng') ! j) = InUse \<and>
                sourceInput (bToA (state eng') ! j) = routingAt (routingB e) bOut \<and>
                destinations (bToA (state eng') ! j) = destsOnA
           else status (bToA (state eng') ! j) = Free \<and>
                sourceInput (bToA (state eng') ! j) = None \<and>
                destinations (bToA (state eng') ! j) = [])))"
proof (intro conjI impI)
  assume "\<not> connectedA e \<or> \<not> connectedB e"
  then show "eng' = eng" by (auto simp: eng'_def reconstructStateFromRouting_def)
next
  assume c: "connectedA e \<and> connectedB e"
  assume "i < length (cfg_aToB (config eng))"
  from run_ports(1)[OF this[unfolded eng_def]]
  have i: "i < length (aToB (state eng))"
    and p: "ports (aToB (state eng) ! i) = cfg_aToB (config eng) ! i"
    and x: "index (aToB (state eng) ! i) = i"
    by (simp_all add: eng_def)
  note n = reconstruct_nth(1)[OF conjunct1[OF c] conjunct2[OF c] i]
  show "index (aToB (state eng') ! i) = i" "ports (aToB (state eng') ! i) = cfg_aToB (config eng) ! i"
    unfolding eng'_def n by (simp_all add: p x)
  show "if routingAt (routingA e) aOut \<noteq> None \<and> destsOnB \<noteq> []
           then status (aToB (state eng') ! i) = InUse \<and>
                sourceInput (aToB (state eng') ! i) = routingAt (routingA e) aOut \<and>
                destinations (aToB (state eng') ! i) = destsOnB
           else status (aToB (state eng') ! i) = Free \<and>
                sourceInput (aToB (state eng') ! i) = None \<and>
                destinations (aToB (state eng') ! i) = []"
    unfolding eng'_def n
    by (simp add: rebuild_fields p destsOn_upt aOut_def bIn_def destsOnB_def)
next
  assume c: "connectedA e \<and> connectedB e"
  assume "j < length (cfg_bToA (config eng))"
  from run_ports(2)[OF this[unfolded eng_def]]
  have j: "j < length (bToA (state eng))"
    and p: "ports (bToA (state eng) ! j) = cfg_bToA (config eng) ! j"
    and x: "index (bToA (state eng) ! j) = j"
    by (simp_all add: eng_def)
  note n = reconstruct_nth(2)[OF conjunct1[OF c] conjunct2[OF c] j]
  show "index (bToA (state eng') ! j) = j" "ports (bToA (state eng') ! j) = cfg_bToA (config eng) ! j"
    unfolding eng'_def n by (simp_all add: p x)
  show "if routingAt (routingB e) bOut \<noteq> None \<and> destsOnA \<noteq> []
           then status (bToA (state eng') ! j) = InUse \<and>
                sourceInput (bToA (state eng') ! j) = routingAt (routingB e) bOut \<and>
                destinations (bToA (state eng') ! j) = destsOnA
           else status (bToA (state eng') ! j) = Free \<and>
                sourceInput (bToA (state eng') ! j) = None \<and>
                destinations (bToA (state eng') ! j) = []"
    unfolding eng'_def n
    by (simp add: rebuild_fields p destsOn_upt bOut_def aIn_def destsOnA_def)
qed

lemma upt6: "[0..<6] = [0,1,2,3,4,5::nat]" by (simp add: upt_rec)

lemma upt7: "[0..<7] = [0,1,2,3,4,5,6::nat]" by (simp add: upt_rec)

lemma fresh_config:
  "cfg_aToB (config (run (Some exampleConfig) [])) = [\<lparr>routerAOutput = 7, routerBInput = 0\<rparr>]"
  "cfg_bToA (config (run (Some exampleConfig) [])) = []"
  by (simp_all add: run_def newEngine_def Let_def exampleConfig_def)

lemma bothWays_config:
  "cfg_aToB (config (run (Some bothWays) [])) = [\<lparr>routerAOutput = 7, routerBInput = 0\<rparr>]"
  "cfg_bToA (config (run (Some bothWays) [])) = [\<lparr>routerBOutput = 6, routerAInput = 5\<rparr>]"
  by (simp_all add: run_def newEngine_def Let_def bothWays_def)

lemma afterAllocate_reconstruct_down:
  "status (aToB (state (reconstructStateFromRouting bDown afterAllocate)) ! 0) = InUse"
  "routerAOutput (cfg_aToB (config afterAllocate) ! 0) = 7"
  "routingAt (routingA bDown) 7 = None"
  by code_simp+

text \<open>
  C7 as stated fails when a controller is not connected: the line is in use, router A
  reports no route for output 7, and reconstruction leaves the line in use.
\<close>

theorem reconstruction_counterexample:
  "routerAOutput (cfg_aToB (config afterAllocate) ! 0) = 7 \<and>
   routingAt (routingA bDown) 7 = None \<and>
   status (aToB (state (reconstructStateFromRouting bDown afterAllocate)) ! 0) = InUse"
  by (simp add: afterAllocate_reconstruct_down)

theorem reconstruction_witness:
  "(connectedA specExample \<and> connectedB specExample \<and>
    status (aToB (state (reconstructStateFromRouting specExample fresh)) ! 0) = InUse \<and>
    sourceInput (aToB (state (reconstructStateFromRouting specExample fresh)) ! 0) = Some 3 \<and>
    destinations (aToB (state (reconstructStateFromRouting specExample fresh)) ! 0) = [4, 5] \<and>
    connectedA bothWaysReported \<and> connectedB bothWaysReported \<and>
    sourceInput (aToB (state (reconstructStateFromRouting bothWaysReported (run (Some bothWays) []))) ! 0) = Some 3 \<and>
    destinations (aToB (state (reconstructStateFromRouting bothWaysReported (run (Some bothWays) []))) ! 0) = [4, 5] \<and>
    sourceInput (bToA (state (reconstructStateFromRouting bothWaysReported (run (Some bothWays) []))) ! 0) = Some 2 \<and>
    destinations (bToA (state (reconstructStateFromRouting bothWaysReported (run (Some bothWays) []))) ! 0) = [2]) \<and>
   (\<not> connectedB bDown \<and> reconstructStateFromRouting bDown afterAllocate = afterAllocate)"
proof -
  have part1:
    "connectedA specExample \<and> connectedB specExample \<and>
     status (aToB (state (reconstructStateFromRouting specExample fresh)) ! 0) = InUse \<and>
     sourceInput (aToB (state (reconstructStateFromRouting specExample fresh)) ! 0) = Some 3 \<and>
     destinations (aToB (state (reconstructStateFromRouting specExample fresh)) ! 0) = [4, 5] \<and>
     connectedA bothWaysReported \<and> connectedB bothWaysReported \<and>
     sourceInput (aToB (state (reconstructStateFromRouting bothWaysReported (run (Some bothWays) []))) ! 0) = Some 3 \<and>
     destinations (aToB (state (reconstructStateFromRouting bothWaysReported (run (Some bothWays) []))) ! 0) = [4, 5] \<and>
     sourceInput (bToA (state (reconstructStateFromRouting bothWaysReported (run (Some bothWays) []))) ! 0) = Some 2 \<and>
     destinations (bToA (state (reconstructStateFromRouting bothWaysReported (run (Some bothWays) []))) ! 0) = [2]"
  proof -
    have c: "connectedA specExample" "connectedB specExample"
      by (simp_all add: specExample_def allOk_def)
    have c2: "connectedA bothWaysReported" "connectedB bothWaysReported"
      by (simp_all add: bothWaysReported_def allOk_def)
    have ex: "routingA specExample = [None, None, None, None, None, None, None, Some 3]"
      "routingB specExample = [Some 0, None, None, None, Some 0, Some 0]"
      by (simp_all add: specExample_def allOk_def)
    have bw: "routingA bothWaysReported = [None, None, Some 5, None, None, Some 5, None, Some 3]"
      "routingB bothWaysReported = [Some 0, None, None, None, Some 0, Some 0, Some 2]"
      by (simp_all add: bothWaysReported_def allOk_def)
    from reconstruction[where e = specExample and cfg = "Some exampleConfig" and ops = "[]" and i = 0 and j = 0] c
    have "status (aToB (state (reconstructStateFromRouting specExample fresh)) ! 0) = InUse \<and>
          sourceInput (aToB (state (reconstructStateFromRouting specExample fresh)) ! 0) = Some 3 \<and>
          destinations (aToB (state (reconstructStateFromRouting specExample fresh)) ! 0) = [4, 5]"
      unfolding fresh_def
      by (simp add: fresh_config ex routingAt_def upt6 split: if_splits)
    moreover
    from reconstruction[where e = bothWaysReported and cfg = "Some bothWays" and ops = "[]" and i = 0 and j = 0] c2
    have "sourceInput (aToB (state (reconstructStateFromRouting bothWaysReported (run (Some bothWays) []))) ! 0) = Some 3 \<and>
          destinations (aToB (state (reconstructStateFromRouting bothWaysReported (run (Some bothWays) []))) ! 0) = [4, 5] \<and>
          sourceInput (bToA (state (reconstructStateFromRouting bothWaysReported (run (Some bothWays) []))) ! 0) = Some 2 \<and>
          destinations (bToA (state (reconstructStateFromRouting bothWaysReported (run (Some bothWays) []))) ! 0) = [2]"
      by (simp add: bothWays_config bw routingAt_def upt7 upt8 split: if_splits)
    ultimately show ?thesis using c c2 by simp
  qed
  have part2:
    "\<not> connectedB bDown \<and> reconstructStateFromRouting bDown afterAllocate = afterAllocate"
  proof -
    have d: "\<not> connectedB bDown" by (simp add: bDown_def allOk_def)
    from reconstruction[where e = bDown and cfg = "Some exampleConfig"
        and ops = "[ExecuteVirtualRoute allOk 7 0 exampleRouter 0]"] d
    have "reconstructStateFromRouting bDown afterAllocate = afterAllocate"
      unfolding afterAllocate_def by blast
    with d show ?thesis by simp
  qed
  from part1 part2 show ?thesis by blast
qed

section \<open>A call that runs alone\<close>

text \<open>
  When a call of \<^verbatim>\<open>executeVirtualRoute\<close> on natural indices goes from \<^verbatim>\<open>await\<close> to \<^verbatim>\<open>await\<close>
  with nothing in between, it does what \<open>executeVirtualRoute\<close> of the engine section does in
  one step: the same result, the same state and the same commands. So the states of \<open>run\<close> are
  those that the engine reaches when every operation has returned before the next one starts.
\<close>

lemma asObject_simps [simp]:
  "index' (asObject t) = index t" "ports' (asObject t) = ports t" "status' (asObject t) = status t"
  "sourceInput' (asObject t) = map_option Some (sourceInput t)"
  "destinations' (asObject t) = map Some (destinations t)"
  by (simp_all add: asObject_def)

lemma asState_simps [simp]:
  "aToB' (asState st) = map asObject (aToB st)" "bToA' (asState st) = map asObject (bToA st)"
  by (simp_all add: asState_def)

lemma asObject_update:
  "asObject (t\<lparr>destinations := ds\<rparr>) = (asObject t)\<lparr>destinations' := map Some ds\<rparr>"
  "asObject (t\<lparr>destinations := ds, status := s, sourceInput := None\<rparr>) =
     (asObject t)\<lparr>destinations' := map Some ds, status' := s, sourceInput' := None\<rparr>"
  by (simp_all add: asObject_def)

lemma carries_asObject [simp]: "carries' (Some d) (asObject t) = carries d t"
  by (auto simp: carries'_def carries_def)

lemma find_map: "find P (map f xs) = map_option f (find (\<lambda>x. P (f x)) xs)"
  by (induction xs) simp_all

lemma findPos_map: "findPos P (map f xs) = findPos (\<lambda>x. P (f x)) xs"
  by (induction xs) simp_all

lemma filter_Some: "filter (\<lambda>x. x \<noteq> Some d) (map Some ds) = map Some (filter (\<lambda>x. x \<noteq> d) ds)"
  by (induction ds) simp_all

lemma releasePool_asObject:
  "releasePool' (map asObject pool) i (Some d) = map asObject (releasePool pool i d)"
  by (simp add: releasePool'_def releasePool_def Let_def filter_Some map_update asObject_update)

lemma reassign_asObject:
  "(case find (carries' (Some d)) (map asObject pool) of None \<Rightarrow> map asObject pool
    | Some old \<Rightarrow> releasePool' (map asObject pool) (index' old) (Some d)) =
   map asObject (reassignPool pool d)"
  by (simp add: find_map reassignPool_def releasePool_asObject split: option.splits)


lemma handleOutputReassignment_asState:
  "handleOutputReassignment' (asState (state eng)) dir (Some d) =
   asState (state (handleOutputReassignment eng dir d))"
  by (cases dir)
     (simp_all add: handleOutputReassignment'_def handleOutputReassignment_def find_map
        releaseTieLineDestination'_def releaseTieLineDestination_def releasePool_asObject
        asState_def split: option.splits)

lemma cleanupOutputTieLine_asState:
  "cleanupOutputTieLine' (asState (state eng)) r r' (Some d) =
   asState (state (cleanupOutputTieLine eng r r' d))"
  by (simp add: cleanupOutputTieLine'_def cleanupOutputTieLine_def find_map
        releaseTieLineDestination'_def releaseTieLineDestination_def releasePool_asObject
        asState_def split: option.splits)

lemma settle_done [simp]: "settle (Inl res, st, cs) = (Inl res, st, cs)"
  by (simp add: settle_def)

lemma asEnv_simps [simp]:
  "connectedA' (asEnv e) = connectedA e" "connectedB' (asEnv e) = connectedB e"
  "setRouteA' (asEnv e) (Some out) (Some inp) l = setRouteA e out inp l"
  "setRouteB' (asEnv e) (Some out) (Some inp) l = setRouteB e out inp l"
  by (simp_all add: asEnv_def)

lemma routeDirect_alone:
  "settle (routeDirect' (asEnv e) (asState (state eng)) r (Some s) (Some d) l) =
   (case routeDirect e eng r s d l of
      (res, eng', cs) \<Rightarrow> (Inl res, asState (state eng'), map asCall cs))"
  by (cases r) (simp_all add: routeDirect'_def routeDirect_def settle_def asCall_def)

lemma asObject_addDestination:
  "addDestination' (asObject t) (Some d) = asObject (addDestination t d)"
  by (auto simp: addDestination'_def addDestination_def asObject_def)

lemma asObject_commit:
  "commit' (asObject t) (Some s) (Some d) = asObject (commit t s d)"
  by (simp add: commit'_def commit_def asObject_def)

lemma source_asObject:
  "(status' (asObject t) = InUse \<and> sourceInput' (asObject t) = Some (Some s)) =
   (status t = InUse \<and> sourceInput t = Some s)"
  by (cases "sourceInput t") auto

lemma routeAToB_alone:
  "settle (settle (routeAToB' (asEnv e) (asState (state eng)) (Some s) (Some d) l)) =
   (case routeAToB e eng s d l of
      (res, eng', cs) \<Rightarrow> (Inl res, asState (state eng'), map asCall cs))"
proof -
  let ?pool = "aToB (state eng)"
  show ?thesis
  proof (cases "connectedA e \<and> connectedB e")
    case False
    then show ?thesis by (auto simp: routeAToB'_def routeAToB_def Let_def)
  next
    case True
    show ?thesis
    proof (cases "findPos (\<lambda>tl. status tl = InUse \<and> sourceInput tl = Some s) ?pool")
      case (Some i)
      from findPos_Some[OF Some] have i: "i < length ?pool" by simp
      from True Some i show ?thesis
        by (simp add: routeAToB'_def routeAToB_def Let_def findPos_map source_asObject settle_def
            asCall_def asObject_addDestination asState_def map_update)
    next
      case None
      note reuse = this
      show ?thesis
      proof (cases "findPos (\<lambda>tl. status tl = Free) ?pool")
        case None
        with True reuse show ?thesis
          by (simp add: routeAToB'_def routeAToB_def Let_def findPos_map source_asObject)
      next
        case (Some i)
        from findPos_Some[OF Some] have i: "i < length ?pool" by simp
        from True reuse Some i show ?thesis
          by (simp add: routeAToB'_def routeAToB_def Let_def findPos_map source_asObject settle_def
              asCall_def asObject_commit asState_def map_update)
      qed
    qed
  qed
qed


lemma routeBToA_alone:
  "settle (settle (routeBToA' (asEnv e) (asState (state eng)) (Some s) (Some d) l)) =
   (case routeBToA e eng s d l of
      (res, eng', cs) \<Rightarrow> (Inl res, asState (state eng'), map asCall cs))"
proof -
  let ?pool = "bToA (state eng)"
  show ?thesis
  proof (cases "connectedA e \<and> connectedB e")
    case False
    then show ?thesis by (auto simp: routeBToA'_def routeBToA_def Let_def)
  next
    case True
    show ?thesis
    proof (cases "findPos (\<lambda>tl. status tl = InUse \<and> sourceInput tl = Some s) ?pool")
      case (Some i)
      from findPos_Some[OF Some] have i: "i < length ?pool" by simp
      from True Some i show ?thesis
        by (simp add: routeBToA'_def routeBToA_def Let_def findPos_map source_asObject settle_def
            asCall_def asObject_addDestination asState_def map_update)
    next
      case None
      note reuse = this
      show ?thesis
      proof (cases "findPos (\<lambda>tl. status tl = Free) ?pool")
        case None
        with True reuse show ?thesis
          by (simp add: routeBToA'_def routeBToA_def Let_def findPos_map source_asObject)
      next
        case (Some i)
        from findPos_Some[OF Some] have i: "i < length ?pool" by simp
        from True reuse Some i show ?thesis
          by (simp add: routeBToA'_def routeBToA_def Let_def findPos_map source_asObject settle_def
              asCall_def asObject_commit asState_def map_update)
      qed
    qed
  qed
qed

lemma settle_await:
  "settle (Inr (AwaitCleanup e r s d l), st, []) = routeDirect' e st r s d l"
  "settle (Inr (AwaitReassignment e AToB s d l), st, []) = routeAToB' e st s d l"
  "settle (Inr (AwaitReassignment e BToA s d l), st, []) = routeBToA' e st s d l"
  by (simp_all add: settle_def)

lemma settle_settled:
  "settle x = (Inl res, st, cs) \<Longrightarrow> settle (settle x) = (Inl res, st, cs)"
  by simp

lemma executeVirtualRoute_alone:
  "settle (settle (settle (executeVirtualRoute' (asEnv e) (asState (state eng)) (int vo) (int vi) vr l))) =
   (case executeVirtualRoute e eng vo vi vr l of
      (res, eng', cs) \<Rightarrow> (Inl res, asState (state eng'), map asCall cs))"
proof (cases "resolveInputAt vr vi")
  case None
  then show ?thesis
    by (simp add: executeVirtualRoute'_def resolve_int executeVirtualRoute_invalid)
next
  case (Some src)
  note src = this
  show ?thesis
  proof (cases "resolveOutputAt vr vo")
    case None
    then show ?thesis
      by (simp add: executeVirtualRoute'_def resolve_int executeVirtualRoute_invalid src)
  next
    case (Some dst)
    let ?d = "physicalIndex dst" and ?s = "physicalIndex src"
    consider (same) "router src = router dst"
      | (rab) "router src = A" "router dst = B"
      | (rba) "router src = B" "router dst = A"
      by (cases "router src"; cases "router dst") auto
    then show ?thesis
    proof cases
      case same
      have "executeVirtualRoute' (asEnv e) (asState (state eng)) (int vo) (int vi) vr l =
            (Inr (AwaitCleanup (asEnv e) (router src) (Some ?s) (Some ?d) l),
             asState (state (cleanupOutputTieLine eng (router src) (router dst) ?d)), [])"
        using same
        by (simp add: executeVirtualRoute'_def resolve_int src Some asValue_def
            cleanupOutputTieLine_asState)
      then show ?thesis
        by (simp add: settle_await routeDirect_alone executeVirtualRoute_cross(3)[OF src Some same]
            split: prod.splits)
    next
      case rab
      have "executeVirtualRoute' (asEnv e) (asState (state eng)) (int vo) (int vi) vr l =
            (Inr (AwaitReassignment (asEnv e) AToB (Some ?s) (Some ?d) l),
             asState (state (handleOutputReassignment eng AToB ?d)), [])"
        using rab
        by (simp add: executeVirtualRoute'_def resolve_int src Some asValue_def
            handleOutputReassignment_asState)
      then show ?thesis
        by (simp add: settle_await routeAToB_alone executeVirtualRoute_cross(1)[OF src Some rab])
    next
      case rba
      have "executeVirtualRoute' (asEnv e) (asState (state eng)) (int vo) (int vi) vr l =
            (Inr (AwaitReassignment (asEnv e) BToA (Some ?s) (Some ?d) l),
             asState (state (handleOutputReassignment eng BToA ?d)), [])"
        using rba
        by (simp add: executeVirtualRoute'_def resolve_int src Some asValue_def
            handleOutputReassignment_asState)
      then show ?thesis
        by (simp add: settle_await routeBToA_alone executeVirtualRoute_cross(2)[OF src Some rba])
    qed
  qed
qed

lemma react_alone:
  "react \<lparr>tieLines = st, callStates = [p], issued = cs\<rparr> (Resume 0) =
   (case settle (p, st, cs) of (p', st', cs') \<Rightarrow> \<lparr>tieLines = st', callStates = [p'], issued = cs'\<rparr>)"
  by (cases p) (simp_all add: settle_def split: prod.splits)

lemma call_alone:
  assumes "executeVirtualRoute e eng vo vi vr l = (res, eng', cs)"
  shows "events eng [Call (asEnv e) (int vo) (int vi) vr l, Resume 0, Resume 0, Resume 0] =
         \<lparr>tieLines = asState (state eng'), callStates = [Inl res], issued = map asCall cs\<rparr>"
proof -
  let ?x = "executeVirtualRoute' (asEnv e) (asState (state eng)) (int vo) (int vi) vr l"
  obtain p1 st1 cs1 where x1: "?x = (p1, st1, cs1)" by (cases ?x) auto
  obtain p2 st2 cs2 where x2: "settle (p1, st1, cs1) = (p2, st2, cs2)" by (cases "settle (p1, st1, cs1)") auto
  obtain p3 st3 cs3 where x3: "settle (p2, st2, cs2) = (p3, st3, cs3)" by (cases "settle (p2, st2, cs2)") auto
  from executeVirtualRoute_alone[of e eng vo vi vr l] assms x1 x2 x3
  have x4: "settle (p3, st3, cs3) = (Inl res, asState (state eng'), map asCall cs)" by simp
  have s1: "react \<lparr>tieLines = asState (state eng), callStates = [], issued = []\<rparr>
               (Call (asEnv e) (int vo) (int vi) vr l) = \<lparr>tieLines = st1, callStates = [p1], issued = cs1\<rparr>"
    by (simp add: x1)
  have s2: "react \<lparr>tieLines = st1, callStates = [p1], issued = cs1\<rparr> (Resume 0) =
            \<lparr>tieLines = st2, callStates = [p2], issued = cs2\<rparr>"
    by (simp only: react_alone x2 prod.case)
  have s3: "react \<lparr>tieLines = st2, callStates = [p2], issued = cs2\<rparr> (Resume 0) =
            \<lparr>tieLines = st3, callStates = [p3], issued = cs3\<rparr>"
    by (simp only: react_alone x3 prod.case)
  have s4: "react \<lparr>tieLines = st3, callStates = [p3], issued = cs3\<rparr> (Resume 0) =
            \<lparr>tieLines = asState (state eng'), callStates = [Inl res], issued = map asCall cs\<rparr>"
    by (simp only: react_alone x4 prod.case)
  show ?thesis
    unfolding events_def by (simp only: foldl.simps s1 s2 s3 s4)
qed

end
